theory Spec2Isabelle
  imports Complex_Main
begin

section \<open>Zone resolver\<close>

text \<open>
  A zone is a JSON object read with \<^verbatim>\<open>.get\<close>: each of the keys \<^verbatim>\<open>name\<close>,
  \<^verbatim>\<open>flag\<close> and \<^verbatim>\<open>parent\<close> may be absent. Python tests a zone for truth
  (\<^verbatim>\<open>while temp_zone\<close>, \<^verbatim>\<open>if parent_zone\<close>), and a dictionary is true exactly
  when it is not empty, so the empty dictionary \<^verbatim>\<open>{}\<close> (the default of
  \<^verbatim>\<open>player.get('zone', {})\<close>) is a constructor of its own.
\<close>

datatype zone =
    EmptyZone
  | Zone (zone_name: "string option") (zone_flag: "string option") (zone_parent: "zone option")

fun get_name :: "zone \<Rightarrow> string option" where
  "get_name EmptyZone = None"
| "get_name (Zone n f p) = n"

fun get_flag :: "zone \<Rightarrow> string option" where
  "get_flag EmptyZone = None"
| "get_flag (Zone n f p) = f"

fun get_parent :: "zone \<Rightarrow> zone option" where
  "get_parent EmptyZone = None"
| "get_parent (Zone n f p) = p"

text \<open>Truth value of \<^verbatim>\<open>zone.get('parent')\<close>: neither \<^verbatim>\<open>None\<close> nor \<^verbatim>\<open>{}\<close>.\<close>

fun truthy_zone :: "zone option \<Rightarrow> bool" where
  "truthy_zone None = False"
| "truthy_zone (Some EmptyZone) = False"
| "truthy_zone (Some (Zone n f p)) = True"

text \<open>
  The \<^verbatim>\<open>while temp_zone\<close> loop: every zone met on the way up is inserted at the front,
  so the finished path is root first.
\<close>

fun build_path :: "zone option \<Rightarrow> zone list \<Rightarrow> zone list" where
  "build_path None path = path"
| "build_path (Some EmptyZone) path = path"
| "build_path (Some (Zone n f p)) path = build_path p (Zone n f p # path)"

text \<open>\<^verbatim>\<open>d.get(key, default)\<close> on an optional field.\<close>

fun get_or :: "'a option \<Rightarrow> 'a \<Rightarrow> 'a" where
  "get_or None d = d"
| "get_or (Some v) d = v"

text \<open>
  The \<^verbatim>\<open>for i in range(len(path) - 1, -1, -1)\<close> loop. It visits the path from its last
  element to its first, that is leaf first; the argument list is the part still to visit,
  in visiting order. The pair is \<^verbatim>\<open>(country_name, country_flag)\<close>.
\<close>

fun scan_path :: "zone list \<Rightarrow> string \<times> string \<Rightarrow> string \<times> string" where
  "scan_path [] (country_name, country_flag) = (country_name, country_flag)"
| "scan_path (zone # rest) (country_name, country_flag) =
     (let parent_zone = get_parent zone in
      if truthy_zone parent_zone then
        (let grandparent_zone = get_parent (the parent_zone) in
         if (truthy_zone grandparent_zone \<and> get_name (the grandparent_zone) = Some ''World'')
            \<or> (get_name (the parent_zone) = Some ''World'' \<and> get_name zone \<noteq> Some ''World'')
         then (get_or (get_name zone) country_name, get_or (get_flag zone) country_flag)
         else scan_path rest (country_name, country_flag))
      else if get_name zone \<noteq> Some ''World''
      then (get_or (get_name zone) country_name, get_or (get_flag zone) country_flag)
      else scan_path rest (country_name, country_flag))"

definition get_actual_country_info :: "zone \<Rightarrow> string \<times> string" where
  "get_actual_country_info zone_data =
     (let country_name = get_or (get_name zone_data) ''Unknown'';
          country_flag = get_or (get_flag zone_data) ''WOR'';
          path = build_path (Some zone_data) []
      in if length path > 1 then scan_path (rev path) (country_name, country_flag)
         else if path \<noteq> [] \<and> get_name (hd path) \<noteq> Some ''World''
         then (get_or (get_name (hd path)) country_name, get_or (get_flag (hd path)) country_flag)
         else (country_name, country_flag))"

section \<open>Points formula\<close>

text \<open>
  Python's floats are read as real numbers: \<^verbatim>\<open>math.log10\<close> is the logarithm to base
  10, \<^verbatim>\<open>/\<close> is exact division, the literal \<^verbatim>\<open>0.9\<close> is nine tenths, and
  \<^verbatim>\<open>round(points, 2)\<close> is rounding to the nearest hundredth with ties going to the even
  neighbour. The rank is a Python integer. The reading is exact where the code computes in
  binary floating point, so at a large rank the two can differ in the last digit, when the
  product lands next to a rounding tie, or in the tier, when the rank lies just above a
  power of ten that the float of the rank cannot tell it from.
\<close>

definition py_round :: "real \<Rightarrow> int" where
  "py_round x =
     (let f = \<lfloor>x\<rfloor>; d = x - of_int f
      in if d < 1 / 2 then f else if 1 / 2 < d then f + 1 else if even f then f else f + 1)"

definition round2 :: "real \<Rightarrow> real" where
  "round2 x = of_int (py_round (x * 100)) / 100"

definition calculate_points_for_rank :: "int \<Rightarrow> real" where
  "calculate_points_for_rank rank =
     (if rank = 0 \<or> rank \<le> 0 then 0
      else
        (let tier0 = \<lceil>log 10 (of_int rank)\<rceil>;
             tier = (if tier0 < 1 then 1 else tier0);
             points =
               (if tier < 2 then 40000 / of_int rank
                else
                  (let base_points = 4000 / (2 ^ nat (tier - 1));
                       rank_multiplier = (10 ^ nat (tier - 1)) / of_int rank + 9 / 10
                   in base_points * rank_multiplier))
         in round2 points))"

text \<open>
  Names for the two intermediate values of \<^verbatim>\<open>calculate_points_for_rank\<close>: the
  clamped tier, and \<^verbatim>\<open>points\<close> before it is rounded.
\<close>

definition tier_of :: "int \<Rightarrow> int" where
  "tier_of rank = (let tier0 = \<lceil>log 10 (of_int rank)\<rceil> in if tier0 < 1 then 1 else tier0)"

definition unrounded_points :: "int \<Rightarrow> real" where
  "unrounded_points rank =
     (if tier_of rank < 2 then 40000 / of_int rank
      else (4000 / (2 ^ nat (tier_of rank - 1))) * ((10 ^ nat (tier_of rank - 1)) / of_int rank + 9 / 10))"

section \<open>Page URLs\<close>

text \<open>
  Strings are lists of 8-bit characters and \<^verbatim>\<open>\d\<close> is read as an ASCII digit; URLs are
  ASCII.
\<close>

definition is_digit :: "char \<Rightarrow> bool" where
  "is_digit c = (c \<in> set ''0123456789'')"

text \<open>
  \<open>match_param key s\<close>: does a match of the pattern \<^verbatim>\<open>[?&]key=\d+\<close> start at the
  head of \<open>s\<close>? If so, what follows the match (\<^verbatim>\<open>\d+\<close> is greedy).
\<close>

definition match_param :: "string \<Rightarrow> string \<Rightarrow> string option" where
  "match_param key s =
     (case s of
        [] \<Rightarrow> None
      | c # cs \<Rightarrow>
          if (c = CHR ''?'' \<or> c = CHR ''&'')
             \<and> take (length key + 1) cs = key @ ''=''
             \<and> takeWhile is_digit (drop (length key + 1) cs) \<noteq> []
          then Some (dropWhile is_digit (drop (length key + 1) cs))
          else None)"

text \<open>\<^verbatim>\<open>re.sub(r'[?&]key=\d+', '', s)\<close>: every match, leftmost first, is deleted.\<close>

function re_sub_param :: "string \<Rightarrow> string \<Rightarrow> string" where
  "re_sub_param key [] = []"
| "re_sub_param key (c # cs) =
     (case match_param key (c # cs) of
        Some rest \<Rightarrow> re_sub_param key rest
      | None \<Rightarrow> c # re_sub_param key cs)"
  by pat_completeness auto
termination
proof (relation "measure (\<lambda>(key, s). length s)")
  show "wf (measure (\<lambda>(key, s). length s))" by simp
next
  fix key :: string and c :: char and cs rest :: string
  assume m: "match_param key (c # cs) = Some rest"
  then have "rest = dropWhile is_digit (drop (length key + 1) cs)"
    by (simp add: match_param_def split: if_splits)
  moreover have "length (dropWhile is_digit (drop (length key + 1) cs)) \<le> length cs"
    by (rule order_trans [OF length_dropWhile_le]) simp
  ultimately show "((key, rest), (key, c # cs)) \<in> measure (\<lambda>(key, s). length s)"
    by simp
next
  fix key :: string and c :: char and cs :: string
  show "((key, cs), (key, c # cs)) \<in> measure (\<lambda>(key, s). length s)" by simp
qed

text \<open>\<^verbatim>\<open>if s.endswith(c): s = s[:-1]\<close>\<close>

definition drop_trailing :: "char \<Rightarrow> string \<Rightarrow> string" where
  "drop_trailing c s = (if s \<noteq> [] \<and> last s = c then butlast s else s)"

definition clean_base_url :: "string \<Rightarrow> string" where
  "clean_base_url base_api_url_template =
     drop_trailing (CHR ''&'') (drop_trailing (CHR ''?'')
       (re_sub_param ''length'' (re_sub_param ''offset'' base_api_url_template)))"

definition digit_char :: "nat \<Rightarrow> char" where
  "digit_char d = ''0123456789'' ! d"

text \<open>The decimal digits of a number, as the f-string writes \<^verbatim>\<open>{current_offset}\<close>.\<close>

fun str_of_nat :: "nat \<Rightarrow> string" where
  "str_of_nat n = (if n < 10 then [digit_char n] else str_of_nat (n div 10) @ [digit_char (n mod 10)])"

declare str_of_nat.simps [simp del]

text \<open>\<^verbatim>\<open>pat in s\<close> on strings.\<close>

fun is_substring :: "string \<Rightarrow> string \<Rightarrow> bool" where
  "is_substring pat [] = (pat = [])"
| "is_substring pat (c # cs) = (take (length pat) (c # cs) = pat \<or> is_substring pat cs)"

text \<open>\<^verbatim>\<open>s.replace(old, new, 1)\<close> for a non-empty \<open>old\<close>.\<close>

fun replace_first :: "string \<Rightarrow> string \<Rightarrow> string \<Rightarrow> string" where
  "replace_first old new [] = []"
| "replace_first old new (c # cs) =
     (if take (length old) (c # cs) = old then new @ drop (length old) (c # cs)
      else c # replace_first old new cs)"

definition RECORDS_PER_PAGE :: nat where
  "RECORDS_PER_PAGE = 100"

definition paginated_url :: "string \<Rightarrow> nat \<Rightarrow> string" where
  "paginated_url base_api_url current_offset =
     (let param_char = (if CHR ''?'' \<in> set base_api_url then ''&'' else ''?'');
          paginated_api_url =
            base_api_url @ param_char @ ''offset='' @ str_of_nat current_offset
              @ ''&length='' @ str_of_nat RECORDS_PER_PAGE
      in if param_char = ''?'' \<and> is_substring ''length'' paginated_api_url
         then replace_first (''?length='' @ str_of_nat RECORDS_PER_PAGE)
                (''&length='' @ str_of_nat RECORDS_PER_PAGE) paginated_api_url
         else paginated_api_url)"

text \<open>
  What the specification asks of a page URL, for comparison: exactly one \<^verbatim>\<open>?\<close>, and no
  \<^verbatim>\<open>&\<close> before it.
\<close>

definition spec_well_formed_query :: "string \<Rightarrow> bool" where
  "spec_well_formed_query url =
     (count_list url (CHR ''?'') = 1 \<and> CHR ''&'' \<notin> set (takeWhile (\<lambda>c. c \<noteq> CHR ''?'') url))"

text \<open>
  \<^verbatim>\<open>re.search(r'/map/([^?]+)', api_url)\<close>: the leftmost \<^verbatim>\<open>/map/\<close> that is followed
  by a character other than \<^verbatim>\<open>?\<close>; the group runs up to the next \<^verbatim>\<open>?\<close>.
\<close>

fun extract_map_uid_from_url :: "string \<Rightarrow> string option" where
  "extract_map_uid_from_url [] = None"
| "extract_map_uid_from_url (c # cs) =
     (if take 5 (c # cs) = ''/map/'' \<and> takeWhile (\<lambda>x. x \<noteq> CHR ''?'') (drop 5 (c # cs)) \<noteq> []
      then Some (takeWhile (\<lambda>x. x \<noteq> CHR ''?'') (drop 5 (c # cs)))
      else extract_map_uid_from_url cs)"

section \<open>Persistent store, session event log, API responses\<close>

text \<open>
  The three tables of \<^verbatim>\<open>init_db\<close>, each a map from its primary key to the other
  columns. A column that the program only ever writes with a value is not optional here;
  the world-record columns, the time and the score can be \<^verbatim>\<open>NULL\<close>. SQLite does
  not enforce the foreign keys, so they are not part of the model.
\<close>

record map_row =
  api_url :: string
  map_display_name :: string
  last_playercount :: int
  last_fetched_at :: string
  wr_player_id :: "string option"
  wr_time_ms :: "int option"
  wr_game_timestamp :: "string option"
  wr_script_recorded_at :: "string option"
  is_new_wr_since_last_fetch :: bool
  fetch_order :: nat

record player_row =
  last_known_name :: string
  country_name :: string
  country_flag :: string
  first_seen_by_script_at :: string

record record_row =
  time_ms :: "int option"
  score :: "int option"
  position :: nat
  game_timestamp :: "string option"
  script_recorded_at :: string
  script_updated_at :: string
  is_pb_since_last_fetch :: bool
  is_new_player_on_map_since_last_fetch :: bool

record db =
  maps_tbl :: "string \<rightharpoonup> map_row"
  players_tbl :: "string \<rightharpoonup> player_row"
  records_tbl :: "string \<times> string \<rightharpoonup> record_row"

text \<open>\<^verbatim>\<open>session_data\<close>, with the tuples the source appends.\<close>

record session_data =
  newly_added_players :: "string set"
  new_pbs :: "(string \<times> string \<times> int option \<times> int option) list"
  new_players_on_map :: "(string \<times> string \<times> int option) list"
  new_wrs :: "(string \<times> string \<times> int option \<times> string \<times> int option) list"
  player_name_changes :: "(string \<times> string \<times> string) list"

definition empty_session :: session_data where
  "empty_session =
     \<lparr>newly_added_players = {}, new_pbs = [], new_players_on_map = [], new_wrs = [],
      player_name_changes = []\<rparr>"

text \<open>
  One element of \<^verbatim>\<open>tops\<close>. The source reads every field with \<^verbatim>\<open>.get\<close>, so
  each may be missing; a missing \<^verbatim>\<open>player\<close> object is one with no id and no name,
  a missing \<^verbatim>\<open>zone\<close> is the empty dictionary.
\<close>

record top_entry =
  player_id :: "string option"
  player_name :: "string option"
  player_zone :: zone
  entry_time :: "int option"
  entry_score :: "int option"
  entry_timestamp :: "string option"

text \<open>
  What one \<^verbatim>\<open>requests.get\<close> of the page loop comes back with: one of the two caught
  exceptions, or a decoded body with its \<^verbatim>\<open>playercount\<close> and \<^verbatim>\<open>tops\<close> keys.
\<close>

datatype page_result =
    RequestException
  | JSONDecodeError
  | Response (playercount: "int option") (tops: "top_entry list option")

record map_entry =
  url_template :: string
  entry_name :: string
  entry_fetch_order :: nat

text \<open>Truth value of a string that may be \<^verbatim>\<open>None\<close>: \<^verbatim>\<open>if player_id\<close>.\<close>

fun truthy_str :: "string option \<Rightarrow> bool" where
  "truthy_str None = False"
| "truthy_str (Some s) = (s \<noteq> [])"

section \<open>Page loop\<close>

text \<open>
  The \<^verbatim>\<open>INSERT OR IGNORE\<close> of a map row followed by its \<^verbatim>\<open>UPDATE\<close>. The
  \<^verbatim>\<open>UNIQUE\<close> constraint on \<^verbatim>\<open>api_url\<close> never bites on rows this program wrote: the
  key of a row is extracted from the very URL stored in it.
\<close>

definition upsert_map :: "string \<Rightarrow> map_entry \<Rightarrow> string \<Rightarrow> int \<Rightarrow> db \<Rightarrow> db" where
  "upsert_map map_uid entry current_fetch_time reported d =
     (let inserted =
            (case maps_tbl d map_uid of
               Some row \<Rightarrow> row
             | None \<Rightarrow>
                 \<lparr>api_url = url_template entry, map_display_name = entry_name entry,
                  last_playercount = reported, last_fetched_at = current_fetch_time,
                  wr_player_id = None, wr_time_ms = None, wr_game_timestamp = None,
                  wr_script_recorded_at = None, is_new_wr_since_last_fetch = False,
                  fetch_order = entry_fetch_order entry\<rparr>)
      in d\<lparr>maps_tbl := (maps_tbl d)(map_uid \<mapsto>
             inserted\<lparr>map_display_name := entry_name entry, last_playercount := reported,
               last_fetched_at := current_fetch_time, api_url := url_template entry,
               fetch_order := entry_fetch_order entry\<rparr>)\<rparr>)"

text \<open>The variables of the \<^verbatim>\<open>while True\<close> loop, the URLs requested so far, and the store.\<close>

record fetch_state =
  all_tops_for_map :: "top_entry list"
  current_offset :: nat
  map_total_playercount_api :: int
  first_fetch_done :: bool
  requested_urls :: "string list"
  fetch_db :: db

definition initial_fetch_state :: "db \<Rightarrow> fetch_state" where
  "initial_fetch_state d =
     \<lparr>all_tops_for_map = [], current_offset = 0, map_total_playercount_api = 0,
      first_fetch_done = False, requested_urls = [], fetch_db = d\<rparr>"

text \<open>
  The loop asks the network once per round. The answers are given as a list, the \<open>n\<close>-th
  answer for the \<open>n\<close>-th request; the loop's result is \<open>None\<close> when it asks for more
  answers than the list holds, and otherwise the state at the \<^verbatim>\<open>break\<close>.
\<close>

fun fetch_pages ::
  "string \<Rightarrow> string \<Rightarrow> map_entry \<Rightarrow> string \<Rightarrow> page_result list \<Rightarrow> fetch_state
     \<Rightarrow> fetch_state option" where
  "fetch_pages base_api_url map_uid entry current_fetch_time [] st = None"
| "fetch_pages base_api_url map_uid entry current_fetch_time (resp # resps) st =
     (let st1 = st\<lparr>requested_urls :=
                   requested_urls st @ [paginated_url base_api_url (current_offset st)]\<rparr>
      in case resp of
           RequestException \<Rightarrow> Some st1
         | JSONDecodeError \<Rightarrow> Some st1
         | Response reported page_tops \<Rightarrow>
             (let current_page_tops = get_or page_tops [];
                  st2 = (if \<not> first_fetch_done st1
                         then st1\<lparr>map_total_playercount_api := get_or reported 0,
                                first_fetch_done := True,
                                fetch_db := upsert_map map_uid entry current_fetch_time
                                              (get_or reported 0) (fetch_db st1)\<rparr>
                         else st1)
              in if current_page_tops \<noteq> [] then
                   (let st3 = st2\<lparr>all_tops_for_map := all_tops_for_map st2 @ current_page_tops\<rparr>
                    in if length current_page_tops < RECORDS_PER_PAGE then Some st3
                       else
                         (let st4 = st3\<lparr>current_offset := current_offset st3 + RECORDS_PER_PAGE\<rparr>
                          in if int (current_offset st4) \<ge> map_total_playercount_api st4
                                \<and> map_total_playercount_api st4 > 0 then Some st4
                             else if current_offset st4 \<ge> 10000
                                \<and> map_total_playercount_api st4 = 0 then Some st4
                             else fetch_pages base_api_url map_uid entry current_fetch_time resps st4))
                 else Some st2))"

section \<open>Reconciliation\<close>

text \<open>
  The test \<^verbatim>\<open>any(change[0] == player_id and change[2] == name for change in ...)\<close>
  that guards every append to the list of name changes.
\<close>

definition name_change_logged :: "string \<Rightarrow> string \<Rightarrow> (string \<times> string \<times> string) list \<Rightarrow> bool" where
  "name_change_logged pid new_name changes =
     list_ex (\<lambda>change. fst change = pid \<and> snd (snd change) = new_name) changes"

text \<open>The player upsert of the world-record block, for the rank-1 row.\<close>

definition upsert_wr_holder :: "string \<Rightarrow> top_entry list \<Rightarrow> db \<times> session_data \<Rightarrow> db \<times> session_data" where
  "upsert_wr_holder current_fetch_time all_tops ds =
     (case all_tops of
        [] \<Rightarrow> ds
      | wr_entry # _ \<Rightarrow>
          (let api_wr_player_name = get_or (player_name wr_entry) ''UnknownWRPlayer''
           in if truthy_str (player_id wr_entry) then
                (let api_wr_player_id = the (player_id wr_entry);
                     wr_country = get_actual_country_info (player_zone wr_entry);
                     d = fst ds; s = snd ds
                 in case players_tbl d api_wr_player_id of
                      None \<Rightarrow>
                        (d\<lparr>players_tbl := (players_tbl d)(api_wr_player_id \<mapsto>
                             \<lparr>last_known_name = api_wr_player_name, country_name = fst wr_country,
                              country_flag = snd wr_country,
                              first_seen_by_script_at = current_fetch_time\<rparr>)\<rparr>,
                         s\<lparr>newly_added_players :=
                             insert api_wr_player_name (newly_added_players s)\<rparr>)
                    | Some row \<Rightarrow>
                        if last_known_name row \<noteq> api_wr_player_name then
                          (d\<lparr>players_tbl := (players_tbl d)(api_wr_player_id \<mapsto>
                               row\<lparr>last_known_name := api_wr_player_name,
                                   country_name := fst wr_country,
                                   country_flag := snd wr_country\<rparr>)\<rparr>,
                           if \<not> name_change_logged api_wr_player_id api_wr_player_name
                                  (player_name_changes s)
                           then s\<lparr>player_name_changes := player_name_changes s
                                   @ [(api_wr_player_id, last_known_name row, api_wr_player_name)]\<rparr>
                           else s)
                        else
                          (d\<lparr>players_tbl := (players_tbl d)(api_wr_player_id \<mapsto>
                               row\<lparr>country_name := fst wr_country,
                                   country_flag := snd wr_country\<rparr>)\<rparr>,
                           s))
              else ds))"

text \<open>
  The \<^verbatim>\<open>SELECT ... LEFT JOIN\<close> of the stored world record: holder id, time, and the
  holder's name as the players table has it now (\<^verbatim>\<open>"N/A"\<close> without one).
\<close>

definition stored_wr :: "string \<Rightarrow> db \<Rightarrow> string option \<times> int option \<times> string" where
  "stored_wr map_uid d =
     (case maps_tbl d map_uid of
        None \<Rightarrow> (None, None, ''N/A'')
      | Some m \<Rightarrow>
          (wr_player_id m, wr_time_ms m,
           (case wr_player_id m of
              None \<Rightarrow> ''N/A''
            | Some p \<Rightarrow>
                (case players_tbl d p of
                   None \<Rightarrow> ''N/A''
                 | Some row \<Rightarrow> if last_known_name row \<noteq> [] then last_known_name row else ''N/A''))))"

text \<open>An \<^verbatim>\<open>UPDATE maps SET ... WHERE map_uid=?\<close>: nothing happens without the row.\<close>

definition update_map :: "string \<Rightarrow> (map_row \<Rightarrow> map_row) \<Rightarrow> db \<Rightarrow> db" where
  "update_map map_uid f d =
     (case maps_tbl d map_uid of
        None \<Rightarrow> d
      | Some m \<Rightarrow> d\<lparr>maps_tbl := (maps_tbl d)(map_uid \<mapsto> f m)\<rparr>)"

definition no_wr_holder :: string where
  "no_wr_holder = ''None (Empty Leaderboard or WR Deleted)''"

text \<open>The comparison of the rank-1 row with the stored world record.\<close>

definition reconcile_wr ::
  "string \<Rightarrow> string \<Rightarrow> string \<Rightarrow> top_entry list \<Rightarrow> db \<times> session_data \<Rightarrow> db \<times> session_data" where
  "reconcile_wr map_uid display_name current_fetch_time all_tops ds =
     (let api_wr_player_id = (case all_tops of [] \<Rightarrow> None | e # _ \<Rightarrow> player_id e);
          api_wr_time_ms = (case all_tops of [] \<Rightarrow> None | e # _ \<Rightarrow> entry_time e);
          api_wr_game_timestamp = (case all_tops of [] \<Rightarrow> None | e # _ \<Rightarrow> entry_timestamp e);
          api_wr_player_name =
            (case all_tops of [] \<Rightarrow> ''N/A'' | e # _ \<Rightarrow> get_or (player_name e) ''UnknownWRPlayer'');
          d = fst ds; s = snd ds;
          db_wr_player_id = fst (stored_wr map_uid d);
          db_wr_time_ms_map = fst (snd (stored_wr map_uid d));
          db_wr_player_name_map = snd (snd (stored_wr map_uid d))
      in if truthy_str api_wr_player_id \<and> api_wr_time_ms \<noteq> None then
           (if db_wr_player_id \<noteq> api_wr_player_id \<or> db_wr_time_ms_map \<noteq> api_wr_time_ms then
              (update_map map_uid
                 (\<lambda>m. m\<lparr>wr_player_id := api_wr_player_id, wr_time_ms := api_wr_time_ms,
                        wr_game_timestamp := api_wr_game_timestamp,
                        wr_script_recorded_at := Some current_fetch_time,
                        is_new_wr_since_last_fetch := True\<rparr>) d,
               s\<lparr>new_wrs := new_wrs s
                    @ [(display_name, api_wr_player_name, api_wr_time_ms,
                        db_wr_player_name_map, db_wr_time_ms_map)]\<rparr>)
            else ds)
         else if db_wr_player_id \<noteq> None then
           (update_map map_uid
              (\<lambda>m. m\<lparr>wr_player_id := None, wr_time_ms := None, wr_game_timestamp := None,
                     wr_script_recorded_at := Some current_fetch_time,
                     is_new_wr_since_last_fetch := True\<rparr>) d,
            s\<lparr>new_wrs := new_wrs s
                 @ [(display_name, no_wr_holder, None, db_wr_player_name_map, db_wr_time_ms_map)]\<rparr>)
         else ds)"

text \<open>The two-branch test that sets \<^verbatim>\<open>is_pb\<close> for a player already on the map.\<close>

definition is_pb :: "int option \<Rightarrow> int option \<Rightarrow> nat \<Rightarrow> nat \<Rightarrow> bool" where
  "is_pb time_ms_val existing_time_ms rank existing_pos =
     (if time_ms_val \<noteq> None
         \<and> (existing_time_ms = None \<or> the time_ms_val < the existing_time_ms) then True
      else if time_ms_val \<noteq> None \<and> existing_time_ms \<noteq> None
         \<and> time_ms_val = existing_time_ms \<and> rank < existing_pos then True
      else False)"

text \<open>The player upsert of the row loop.\<close>

definition upsert_player ::
  "string \<Rightarrow> string \<Rightarrow> string \<Rightarrow> string \<times> string \<Rightarrow> db \<times> session_data \<Rightarrow> db \<times> session_data" where
  "upsert_player current_fetch_time pid current_player_name_api country ds =
     (let d = fst ds; s = snd ds
      in case players_tbl d pid of
           None \<Rightarrow>
             (d\<lparr>players_tbl := (players_tbl d)(pid \<mapsto>
                  \<lparr>last_known_name = current_player_name_api, country_name = fst country,
                   country_flag = snd country, first_seen_by_script_at = current_fetch_time\<rparr>)\<rparr>,
              s\<lparr>newly_added_players := insert current_player_name_api (newly_added_players s)\<rparr>)
         | Some row \<Rightarrow>
             (d\<lparr>players_tbl := (players_tbl d)(pid \<mapsto>
                  row\<lparr>last_known_name := current_player_name_api, country_name := fst country,
                      country_flag := snd country\<rparr>)\<rparr>,
              if last_known_name row \<noteq> current_player_name_api
                 \<and> \<not> name_change_logged pid current_player_name_api (player_name_changes s)
              then s\<lparr>player_name_changes := player_name_changes s
                      @ [(pid, last_known_name row, current_player_name_api)]\<rparr>
              else s))"

text \<open>The record part of one round of the row loop, for a row with a player id.\<close>

definition upsert_record ::
  "string \<Rightarrow> string \<Rightarrow> string \<Rightarrow> nat \<Rightarrow> string \<Rightarrow> string \<Rightarrow> top_entry \<Rightarrow> db \<times> session_data
     \<Rightarrow> db \<times> session_data" where
  "upsert_record map_uid display_name current_fetch_time rank pid current_player_name_api
       record_entry ds =
     (let d = fst ds; s = snd ds;
          time_ms_val = entry_time record_entry;
          score_val = entry_score record_entry;
          game_timestamp_val = entry_timestamp record_entry
      in case records_tbl d (map_uid, pid) of
           None \<Rightarrow>
             (d\<lparr>records_tbl := (records_tbl d)((map_uid, pid) \<mapsto>
                  \<lparr>time_ms = time_ms_val, score = score_val, position = rank,
                   game_timestamp = game_timestamp_val,
                   script_recorded_at = current_fetch_time,
                   script_updated_at = current_fetch_time,
                   is_pb_since_last_fetch = False,
                   is_new_player_on_map_since_last_fetch = True\<rparr>)\<rparr>,
              s\<lparr>new_players_on_map := new_players_on_map s
                   @ [(current_player_name_api, display_name, time_ms_val)]\<rparr>)
         | Some existing \<Rightarrow>
             if is_pb time_ms_val (time_ms existing) rank (position existing) then
               (d\<lparr>records_tbl := (records_tbl d)((map_uid, pid) \<mapsto>
                    existing\<lparr>time_ms := time_ms_val, score := score_val, position := rank,
                             game_timestamp := game_timestamp_val,
                             script_updated_at := current_fetch_time,
                             is_pb_since_last_fetch := True\<rparr>)\<rparr>,
                s\<lparr>new_pbs := new_pbs s
                     @ [(current_player_name_api, display_name, time_ms_val, time_ms existing)]\<rparr>)
             else if rank \<noteq> position existing then
               (d\<lparr>records_tbl := (records_tbl d)((map_uid, pid) \<mapsto>
                    existing\<lparr>position := rank, script_updated_at := current_fetch_time\<rparr>)\<rparr>, s)
             else
               (d\<lparr>records_tbl := (records_tbl d)((map_uid, pid) \<mapsto>
                    existing\<lparr>script_updated_at := current_fetch_time\<rparr>)\<rparr>, s))"

text \<open>One round of \<^verbatim>\<open>for rank, record_entry in enumerate(all_tops_for_map, 1)\<close>.\<close>

definition process_row ::
  "string \<Rightarrow> string \<Rightarrow> string \<Rightarrow> nat \<Rightarrow> top_entry \<Rightarrow> db \<times> session_data \<Rightarrow> db \<times> session_data" where
  "process_row map_uid display_name current_fetch_time rank record_entry ds =
     (let current_player_name_api = get_or (player_name record_entry) ''Unknown''
      in if \<not> truthy_str (player_id record_entry) then ds
         else
           (let pid = the (player_id record_entry);
                country = get_actual_country_info (player_zone record_entry)
            in upsert_record map_uid display_name current_fetch_time rank pid
                 current_player_name_api record_entry
                 (upsert_player current_fetch_time pid current_player_name_api country ds)))"

fun process_rows ::
  "string \<Rightarrow> string \<Rightarrow> string \<Rightarrow> nat \<Rightarrow> top_entry list \<Rightarrow> db \<times> session_data \<Rightarrow> db \<times> session_data" where
  "process_rows map_uid display_name current_fetch_time rank [] ds = ds"
| "process_rows map_uid display_name current_fetch_time rank (record_entry # rest) ds =
     process_rows map_uid display_name current_fetch_time (Suc rank) rest
       (process_row map_uid display_name current_fetch_time rank record_entry ds)"

text \<open>
  Everything the body of the map loop does after the page loop: the player-count
  correction, the world-record block, the world-record comparison and the row loop.
\<close>

definition reconcile_map ::
  "string \<Rightarrow> string \<Rightarrow> string \<Rightarrow> top_entry list \<Rightarrow> int \<Rightarrow> db \<times> session_data \<Rightarrow> db \<times> session_data" where
  "reconcile_map map_uid display_name current_fetch_time all_tops reported ds =
     (let actual_fetched_count = int (length all_tops);
          ds1 = (if actual_fetched_count \<noteq> reported
                 then (update_map map_uid (\<lambda>m. m\<lparr>last_playercount := actual_fetched_count\<rparr>) (fst ds),
                       snd ds)
                 else ds);
          ds2 = upsert_wr_holder current_fetch_time all_tops ds1;
          ds3 = reconcile_wr map_uid display_name current_fetch_time all_tops ds2
      in process_rows map_uid display_name current_fetch_time 1 all_tops ds3)"

text \<open>
  One round of \<^verbatim>\<open>for entry_data in map_url_entries\<close>, given the answers of the network
  to this map's requests. The result carries the URLs requested.
\<close>

definition process_map ::
  "string \<Rightarrow> map_entry \<Rightarrow> page_result list \<Rightarrow> db \<times> session_data
     \<Rightarrow> (string list \<times> db \<times> session_data) option" where
  "process_map current_fetch_time entry responses ds =
     (let base_api_url = clean_base_url (url_template entry)
      in case extract_map_uid_from_url (url_template entry) of
           None \<Rightarrow> Some ([], ds)
         | Some map_uid \<Rightarrow>
             (case fetch_pages base_api_url map_uid entry current_fetch_time responses
                     (initial_fetch_state (fst ds)) of
                None \<Rightarrow> None
              | Some st \<Rightarrow>
                  Some (requested_urls st,
                        reconcile_map map_uid (entry_name entry) current_fetch_time
                          (all_tops_for_map st) (map_total_playercount_api st)
                          (fetch_db st, snd ds))))"

fun process_entries ::
  "string \<Rightarrow> (map_entry \<times> page_result list) list \<Rightarrow> db \<times> session_data
     \<Rightarrow> (db \<times> session_data) option" where
  "process_entries current_fetch_time [] ds = Some ds"
| "process_entries current_fetch_time ((entry, responses) # rest) ds =
     (case process_map current_fetch_time entry responses ds of
        None \<Rightarrow> None
      | Some (urls, ds') \<Rightarrow> process_entries current_fetch_time rest ds')"

text \<open>The two \<^verbatim>\<open>UPDATE\<close> statements that open a run.\<close>

definition reset_flags :: "db \<Rightarrow> db" where
  "reset_flags d =
     d\<lparr>records_tbl :=
         (\<lambda>k. map_option (\<lambda>r. r\<lparr>is_pb_since_last_fetch := False,
                                 is_new_player_on_map_since_last_fetch := False\<rparr>) (records_tbl d k)),
       maps_tbl :=
         (\<lambda>k. map_option (\<lambda>m. m\<lparr>is_new_wr_since_last_fetch := False\<rparr>) (maps_tbl d k))\<rparr>"

text \<open>
  A run over the parsed list of map entries: flags reset, a fresh session log, then the
  maps in order. With no entry the source returns its error value before it opens the
  store.
\<close>

datatype run_result = ConfigError | Finished db session_data

definition fetch_and_process_data ::
  "string \<Rightarrow> (map_entry \<times> page_result list) list \<Rightarrow> db \<Rightarrow> run_result option" where
  "fetch_and_process_data current_fetch_time map_url_entries d =
     (if map_url_entries = [] then Some ConfigError
      else case process_entries current_fetch_time map_url_entries (reset_flags d, empty_session) of
             None \<Rightarrow> None
           | Some ds \<Rightarrow> Some (Finished (fst ds) (snd ds)))"

section \<open>Observations, conditions and sample inputs\<close>

text \<open>
  The stored world record of a map as the comparison reads it: holder id, time and game
  timestamp, all \<open>None\<close> for a map with no row.
\<close>

definition wr_snapshot :: "string \<Rightarrow> db \<Rightarrow> string option \<times> int option \<times> string option" where
  "wr_snapshot map_uid d =
     (case maps_tbl d map_uid of
        None \<Rightarrow> (None, None, None)
      | Some m \<Rightarrow> (wr_player_id m, wr_time_ms m, wr_game_timestamp m))"

text \<open>
  The condition of the specification for a world-record change, for comparison with
  \<open>reconcile_wr\<close>: the holder id differs, or the time differs, or the stored snapshot
  existed but the leaderboard is now empty.
\<close>

definition spec_wr_changed :: "top_entry list \<Rightarrow> string option \<times> int option \<times> string option \<Rightarrow> bool" where
  "spec_wr_changed all_tops stored =
     (case all_tops of
        [] \<Rightarrow> fst stored \<noteq> None
      | e # _ \<Rightarrow> player_id e \<noteq> fst stored \<or> entry_time e \<noteq> fst (snd stored))"

text \<open>
  The leaderboard as the world-record comparison sees it. The guard
  \<^verbatim>\<open>if api_wr_player_id and api_wr_time_ms is not None\<close> lets the rank-1 row through
  only with a non-empty player id and a time; any other leaderboard goes down the branch
  \<^verbatim>\<open>elif db_wr_player_id is not None\<close> that an empty one takes.
\<close>

definition wr_candidate :: "top_entry list \<Rightarrow> top_entry list" where
  "wr_candidate all_tops =
     (case all_tops of
        [] \<Rightarrow> []
      | wr_entry # _ \<Rightarrow>
          if truthy_str (player_id wr_entry) \<and> entry_time wr_entry \<noteq> None then [wr_entry] else [])"

text \<open>
  Inputs for the concrete instances: a map entry, a leaderboard row, and rows of the three
  tables.
\<close>

definition sample_entry :: map_entry where
  "sample_entry =
     \<lparr>url_template = ''https://trackmania.io/api/leaderboard/map/ABC'', entry_name = ''Alpha'',
      entry_fetch_order = 0\<rparr>"

definition sample_row :: "string \<Rightarrow> string \<Rightarrow> int \<Rightarrow> top_entry" where
  "sample_row pid nm t =
     \<lparr>player_id = Some pid, player_name = Some nm, player_zone = EmptyZone,
      entry_time = Some t, entry_score = Some 0, entry_timestamp = Some ''2025-05-01T10:00:00''\<rparr>"

definition sample_map_row :: "string option \<Rightarrow> int option \<Rightarrow> map_row" where
  "sample_map_row holder t =
     \<lparr>api_url = ''https://trackmania.io/api/leaderboard/map/ABC'', map_display_name = ''Alpha'',
      last_playercount = 1, last_fetched_at = ''2025-04-01T09:00:00'',
      wr_player_id = holder, wr_time_ms = t, wr_game_timestamp = None,
      wr_script_recorded_at = None, is_new_wr_since_last_fetch = False, fetch_order = 0\<rparr>"

definition sample_player :: "string \<Rightarrow> player_row" where
  "sample_player nm =
     \<lparr>last_known_name = nm, country_name = ''Unknown'', country_flag = ''WOR'',
      first_seen_by_script_at = ''2025-04-01T09:00:00''\<rparr>"

definition sample_record :: "int \<Rightarrow> nat \<Rightarrow> record_row" where
  "sample_record t pos =
     \<lparr>time_ms = Some t, score = Some 0, position = pos,
      game_timestamp = Some ''2025-03-01T08:00:00'',
      script_recorded_at = ''2025-04-01T09:00:00'', script_updated_at = ''2025-04-01T09:00:00'',
      is_pb_since_last_fetch = False, is_new_player_on_map_since_last_fetch = False\<rparr>"

definition db_with_wr :: db where
  "db_with_wr =
     \<lparr>maps_tbl = [''ABC'' \<mapsto> sample_map_row (Some ''p1'') (Some 52000)],
      players_tbl = [''p1'' \<mapsto> sample_player ''Ann''],
      records_tbl = [(''ABC'', ''p1'') \<mapsto> sample_record 52000 1]\<rparr>"

definition db_rank5 :: db where
  "db_rank5 =
     \<lparr>maps_tbl = [''ABC'' \<mapsto> sample_map_row (Some ''p1'') (Some 9000)],
      players_tbl = [''p7'' \<mapsto> sample_player ''Gus''],
      records_tbl = [(''ABC'', ''p7'') \<mapsto> sample_record 10000 5]\<rparr>"

definition empty_db :: db where
  "empty_db = \<lparr>maps_tbl = Map.empty, players_tbl = Map.empty, records_tbl = Map.empty\<rparr>"

text \<open>
  The condition for a personal best in words, for comparison with \<open>is_pb\<close>: the fetched
  row has a time, and the stored record has none, or the fetched time is lower, or the
  times are equal and the fetched rank is lower than the stored position.
\<close>

definition spec_is_pb :: "int option \<Rightarrow> int option \<Rightarrow> nat \<Rightarrow> nat \<Rightarrow> bool" where
  "spec_is_pb fetched_time stored_time rank stored_position =
     (case fetched_time of
        None \<Rightarrow> False
      | Some t_new \<Rightarrow>
          (case stored_time of
             None \<Rightarrow> True
           | Some t_old \<Rightarrow> t_new < t_old \<or> (t_new = t_old \<and> rank < stored_position)))"

definition db_rank3 :: db where
  "db_rank3 =
     \<lparr>maps_tbl = [''ABC'' \<mapsto> sample_map_row (Some ''p1'') (Some 9000)],
      players_tbl = [''p7'' \<mapsto> sample_player ''Gus''],
      records_tbl = [(''ABC'', ''p7'') \<mapsto> sample_record 10000 3]\<rparr>"

text \<open>Leaderboards with the player \<^verbatim>\<open>p7\<close> in the third and in the fifth place.\<close>

definition rows_third_place :: "top_entry list" where
  "rows_third_place =
     [sample_row ''p1'' ''Ann'' 9000, sample_row ''p2'' ''Bob'' 9500, sample_row ''p7'' ''Gus'' 10000]"

definition rows_fifth_place :: "top_entry list" where
  "rows_fifth_place =
     [sample_row ''p1'' ''Ann'' 9000, sample_row ''p2'' ''Bob'' 9500, sample_row ''p3'' ''Cy'' 9600,
      sample_row ''p4'' ''Di'' 9700, sample_row ''p7'' ''Gus'' 10000]"

text \<open>
  The player count the loop compares with while it handles a page: the one captured from
  the first decoded answer.
\<close>

definition count_in_force :: "fetch_state \<Rightarrow> int option \<Rightarrow> int" where
  "count_in_force st reported =
     (if first_fetch_done st then map_total_playercount_api st else get_or reported 0)"

text \<open>
  The stopping conditions as the code tests them after a decoded page, on the offset
  advanced past that page; a page with no rows is one with fewer rows than the page size.
\<close>

definition stops_after_page :: "fetch_state \<Rightarrow> int option \<Rightarrow> top_entry list \<Rightarrow> bool" where
  "stops_after_page st reported current_page_tops =
     (length current_page_tops < RECORDS_PER_PAGE
      \<or> (int (current_offset st + RECORDS_PER_PAGE) \<ge> count_in_force st reported
           \<and> count_in_force st reported > 0)
      \<or> (current_offset st + RECORDS_PER_PAGE \<ge> 10000 \<and> count_in_force st reported = 0))"

text \<open>The player and the new name of a name-change event.\<close>

definition change_key :: "string \<times> string \<times> string \<Rightarrow> string \<times> string" where
  "change_key change = (fst change, snd (snd change))"

definition changes_distinct :: "session_data \<Rightarrow> bool" where
  "changes_distinct s = distinct (map change_key (player_name_changes s))"

definition second_entry :: map_entry where
  "second_entry =
     \<lparr>url_template = ''https://trackmania.io/api/leaderboard/map/DEF'', entry_name = ''Beta'',
      entry_fetch_order = 1\<rparr>"

text \<open>Two states of the page loop that differ at most in the store.\<close>

definition same_fetch :: "fetch_state \<Rightarrow> fetch_state \<Rightarrow> bool" where
  "same_fetch st st2 =
     (all_tops_for_map st = all_tops_for_map st2 \<and> current_offset st = current_offset st2
      \<and> map_total_playercount_api st = map_total_playercount_api st2
      \<and> first_fetch_done st = first_fetch_done st2 \<and> requested_urls st = requested_urls st2)"

text \<open>The ids of the rows that the row loop does not skip, in leaderboard order.\<close>

definition fetched_player_ids :: "top_entry list \<Rightarrow> string list" where
  "fetched_player_ids all_tops =
     map (\<lambda>e. the (player_id e)) (filter (\<lambda>e. truthy_str (player_id e)) all_tops)"

text \<open>
  Two stores that agree but for \<^verbatim>\<open>last_fetched_at\<close> of the maps and
  \<^verbatim>\<open>script_updated_at\<close> of the records.
\<close>

definition same_but_timestamps :: "db \<Rightarrow> db \<Rightarrow> bool" where
  "same_but_timestamps d d' =
     (players_tbl d' = players_tbl d
      \<and> (\<forall>k. map_option (\<lambda>m. m\<lparr>last_fetched_at := []\<rparr>) (maps_tbl d' k)
             = map_option (\<lambda>m. m\<lparr>last_fetched_at := []\<rparr>) (maps_tbl d k))
      \<and> (\<forall>k. map_option (\<lambda>r. r\<lparr>script_updated_at := []\<rparr>) (records_tbl d' k)
             = map_option (\<lambda>r. r\<lparr>script_updated_at := []\<rparr>) (records_tbl d k)))"

text \<open>
  A row is settled in a store when its player is stored under the row's name and country
  and its record stands at the row's rank with a time the row does not beat.
\<close>

definition row_settled :: "string \<Rightarrow> nat \<Rightarrow> top_entry \<Rightarrow> db \<Rightarrow> bool" where
  "row_settled u rank e d =
     (if truthy_str (player_id e) then
        (case players_tbl d (the (player_id e)) of
           None \<Rightarrow> False
         | Some p \<Rightarrow>
             last_known_name p = get_or (player_name e) ''Unknown''
             \<and> country_name p = fst (get_actual_country_info (player_zone e))
             \<and> country_flag p = snd (get_actual_country_info (player_zone e)))
        \<and> (case records_tbl d (u, the (player_id e)) of
              None \<Rightarrow> False
            | Some r \<Rightarrow> position r = rank \<and> \<not> is_pb (entry_time e) (time_ms r) rank rank)
      else True)"

fun rows_settled :: "string \<Rightarrow> nat \<Rightarrow> top_entry list \<Rightarrow> db \<Rightarrow> bool" where
  "rows_settled u rank [] d = True"
| "rows_settled u rank (e # es) d = (row_settled u rank e d \<and> rows_settled u (Suc rank) es d)"

text \<open>Two stores with the same players and, but for \<^verbatim>\<open>script_updated_at\<close>, the same records.\<close>

definition records_touched :: "db \<Rightarrow> db \<Rightarrow> bool" where
  "records_touched d d' =
     (players_tbl d' = players_tbl d
      \<and> (\<forall>k. map_option (\<lambda>r. r\<lparr>script_updated_at := []\<rparr>) (records_tbl d' k)
             = map_option (\<lambda>r. r\<lparr>script_updated_at := []\<rparr>) (records_tbl d k)))"

text \<open>The stored world record is the one the rank-1 row gives, or none.\<close>

definition wr_matches :: "top_entry list \<Rightarrow> string option \<times> int option \<times> string option \<Rightarrow> bool" where
  "wr_matches all_tops stored =
     (case all_tops of
        [] \<Rightarrow> fst stored = None
      | e # _ \<Rightarrow>
          if truthy_str (player_id e) \<and> entry_time e \<noteq> None
          then fst stored = player_id e \<and> fst (snd stored) = entry_time e
          else fst stored = None)"

definition wr_settled :: "string \<Rightarrow> top_entry list \<Rightarrow> db \<Rightarrow> bool" where
  "wr_settled u all_tops d = wr_matches all_tops (wr_snapshot u d)"

text \<open>The map row carries the entry's name, URL and order and the given player count.\<close>

definition map_settled :: "string \<Rightarrow> map_entry \<Rightarrow> int \<Rightarrow> db \<Rightarrow> bool" where
  "map_settled u entry n d =
     (case maps_tbl d u of
        None \<Rightarrow> False
      | Some m \<Rightarrow>
          map_display_name m = entry_name entry \<and> api_url m = url_template entry
          \<and> fetch_order m = entry_fetch_order entry \<and> last_playercount m = n)"

section \<open>Zone resolution\<close>

text \<open>
  With the continent level that the live zone tree has between the world and a country,
  the zone whose grandparent is the world is the country.
\<close>

lemma country_below_continent:
  "rn \<noteq> ''World'' \<Longrightarrow> kn \<noteq> ''World'' \<Longrightarrow> tn \<noteq> ''World'' \<Longrightarrow>
   get_actual_country_info
     (Zone (Some cn) (Some cf) (Some (Zone (Some rn) (Some rf) (Some (Zone (Some kn) (Some kf)
        (Some (Zone (Some tn) (Some tf) (Some (Zone (Some ''World'') wflag None)))))))))
   = (kn, kf)"
  by (simp add: get_actual_country_info_def)

text \<open>
  C1, as the claim states it, fails: for the chain City, Region, Country, World the
  resolver returns the name and flag of Region, not of Country.
\<close>

theorem zone_chain_counterexample:
  "get_actual_country_info
     (Zone (Some ''City'') (Some ''CIT'') (Some (Zone (Some ''Region'') (Some ''REG'')
        (Some (Zone (Some ''Country'') (Some ''COU'') (Some (Zone (Some ''World'') (Some ''WOR'') None)))))))
   = (''Region'', ''REG'')
   \<and> (''Region'', ''REG'') \<noteq> (''Country'', ''COU'')"
  by (simp add: get_actual_country_info_def)

text \<open>
  C1, amended: for every leaf zone whose parent chain is City, Region, Country, World, with
  neither Region nor Country named World, the resolver returns the name and flag of Region,
  the zone whose grandparent is World; and for every leaf zone with no parent whose name is
  not World it returns that zone's own name and flag.
\<close>

theorem zone_resolution:
  "(rn \<noteq> ''World'' \<longrightarrow> kn \<noteq> ''World'' \<longrightarrow>
      get_actual_country_info
        (Zone (Some cn) (Some cf) (Some (Zone (Some rn) (Some rf)
           (Some (Zone (Some kn) (Some kf) (Some (Zone (Some ''World'') wflag None)))))))
      = (rn, rf))
   \<and> (n \<noteq> ''World'' \<longrightarrow> get_actual_country_info (Zone (Some n) (Some f) None) = (n, f))"
  by (simp add: get_actual_country_info_def)

theorem zone_resolution_witness:
  "''Normandie'' \<noteq> ''World'' \<and> ''France'' \<noteq> ''World''
   \<and> get_actual_country_info
        (Zone (Some ''Caen'') (Some ''CAE'') (Some (Zone (Some ''Normandie'') (Some ''NOR'')
           (Some (Zone (Some ''France'') (Some ''FRA'') (Some (Zone (Some ''World'') (Some ''WOR'') None)))))))
      = (''Normandie'', ''NOR'')
   \<and> ''Japan'' \<noteq> ''World''
   \<and> get_actual_country_info (Zone (Some ''Japan'') (Some ''JPN'') None) = (''Japan'', ''JPN'')"
  using zone_resolution [of "''Normandie''" "''France''" "''Caen''" "''CAE''" "''NOR''" "''FRA''"
      "Some ''WOR''" "''Japan''" "''JPN''"]
  by simp

section \<open>Page URL construction\<close>

text \<open>
  C4: a template whose first query parameter is \<^verbatim>\<open>offset\<close> and that has a further
  parameter loses its \<^verbatim>\<open>?\<close> with the stripped parameter; the page URL then has an
  \<^verbatim>\<open>&\<close> before its only \<^verbatim>\<open>?\<close>. The map is not skipped: its UID is found.
\<close>

theorem page_url_offset_first_parameter:
  "extract_map_uid_from_url ''https://trackmania.io/api/leaderboard/map/ABC?offset=0&foo=1''
     = Some ''ABC''
   \<and> clean_base_url ''https://trackmania.io/api/leaderboard/map/ABC?offset=0&foo=1''
     = ''https://trackmania.io/api/leaderboard/map/ABC&foo=1''
   \<and> paginated_url
       (clean_base_url ''https://trackmania.io/api/leaderboard/map/ABC?offset=0&foo=1'') 0
     = ''https://trackmania.io/api/leaderboard/map/ABC&foo=1?offset=0&length=100''
   \<and> \<not> spec_well_formed_query
         (paginated_url
            (clean_base_url ''https://trackmania.io/api/leaderboard/map/ABC?offset=0&foo=1'') 0)"
  by code_simp

section \<open>Points formula: the literal table\<close>

lemma ceiling_log10_iff:
  assumes "1 \<le> r"
  shows "\<lceil>log 10 (of_int r)\<rceil> = t
     \<longleftrightarrow> (10::real) powr (of_int t - 1) < of_int r \<and> of_int r \<le> (10::real) powr (of_int t)"
proof -
  have pos: "(0::real) < of_int r" using assms by simp
  show ?thesis
    unfolding ceiling_eq_iff
    using less_log_iff [of 10 "of_int r" "of_int t - 1"] log_le_iff [of 10 "of_int r" "of_int t"] pos
    by simp
qed

lemma ceiling_log10_9: "\<lceil>log 10 (9::real)\<rceil> = 1"
  using ceiling_log10_iff [of 9 1] by simp

lemma ceiling_log10_11: "\<lceil>log 10 (11::real)\<rceil> = 2"
  using ceiling_log10_iff [of 11 2] by simp

lemma ceiling_log10_100: "\<lceil>log 10 (100::real)\<rceil> = 2"
  using ceiling_log10_iff [of 100 2] by simp

lemma ceiling_log10_1000: "\<lceil>log 10 (1000::real)\<rceil> = 3"
  using ceiling_log10_iff [of 1000 3] by simp

lemma points_rank_1: "calculate_points_for_rank 1 = 40000"
  by (simp add: calculate_points_for_rank_def round2_def py_round_def)

lemma points_rank_9: "calculate_points_for_rank 9 = 444444 / 100"
  by (simp add: calculate_points_for_rank_def ceiling_log10_9 round2_def py_round_def Let_def)

lemma points_rank_10: "calculate_points_for_rank 10 = 4000"
  by (simp add: calculate_points_for_rank_def round2_def py_round_def Let_def)

lemma points_rank_11: "calculate_points_for_rank 11 = 361818 / 100"
  by (simp add: calculate_points_for_rank_def ceiling_log10_11 round2_def py_round_def Let_def)

lemma points_rank_100: "calculate_points_for_rank 100 = 2000"
  by (simp add: calculate_points_for_rank_def ceiling_log10_100 round2_def py_round_def Let_def)

lemma points_rank_1000: "calculate_points_for_rank 1000 = 1000"
  by (simp add: calculate_points_for_rank_def ceiling_log10_1000 round2_def py_round_def Let_def)

text \<open>
  C10: the points for ranks 1, 9, 10, 11, 100 and 1000 are 40000.00, 4444.44, 4000.00,
  3618.18, 2000.00 and 1000.00, with the tier the ceiling of the base-10 logarithm of the
  rank, raised to 1 where it is smaller.
\<close>

theorem points_literal_table:
  "calculate_points_for_rank 1 = 40000
   \<and> calculate_points_for_rank 9 = 444444 / 100
   \<and> calculate_points_for_rank 10 = 4000
   \<and> calculate_points_for_rank 11 = 361818 / 100
   \<and> calculate_points_for_rank 100 = 2000
   \<and> calculate_points_for_rank 1000 = 1000"
  using points_rank_1 points_rank_9 points_rank_10 points_rank_11 points_rank_100 points_rank_1000
  by blast

section \<open>Points formula: the exact reading is monotone\<close>

lemma points_unfold: "0 < rank \<Longrightarrow> calculate_points_for_rank rank = round2 (unrounded_points rank)"
  by (simp add: calculate_points_for_rank_def unrounded_points_def tier_of_def Let_def)

lemma py_round_mono: assumes "x \<le> y" shows "py_round x \<le> py_round y"
proof (cases "\<lfloor>x\<rfloor> = \<lfloor>y\<rfloor>")
  case True
  with assms show ?thesis by (auto simp: py_round_def Let_def)
next
  case False
  with assms have lt: "\<lfloor>x\<rfloor> + 1 \<le> \<lfloor>y\<rfloor>" using floor_mono [OF assms] by linarith
  have "py_round x \<le> \<lfloor>x\<rfloor> + 1" by (auto simp: py_round_def Let_def)
  moreover have "\<lfloor>y\<rfloor> \<le> py_round y" by (auto simp: py_round_def Let_def)
  ultimately show ?thesis using lt by linarith
qed

lemma round2_mono: "x \<le> y \<Longrightarrow> round2 x \<le> round2 y"
  unfolding round2_def using py_round_mono [of "x * 100" "y * 100"]
  by (simp add: divide_right_mono)

lemma tier_of_ge1: "1 \<le> tier_of r"
  by (simp add: tier_of_def Let_def)

lemma tier_of_upper: assumes "1 \<le> r" shows "real_of_int r \<le> 10 ^ nat (tier_of r)"
proof -
  have pos: "(0::real) < of_int r" using assms by simp
  let ?c = "\<lceil>log 10 (of_int r :: real)\<rceil>"
  have "0 \<le> log 10 (of_int r :: real)" using assms by simp
  then have "- 1 < log 10 (of_int r :: real)" by linarith
  then have c0: "0 \<le> ?c" by (simp only: zero_le_ceiling)
  have "of_int r \<le> (10::real) powr (of_int ?c)"
    using log_le_iff  [of 10 "of_int r" "of_int ?c"] pos by simp
  also have "of_int ?c = real (nat ?c)" using c0 by simp
  also have "(10::real) powr (real (nat ?c)) = 10 ^ nat ?c" by (simp add: powr_realpow)
  finally have 1: "real_of_int r \<le> 10 ^ nat ?c" .
  have "nat ?c \<le> nat (tier_of r)" by (simp add: tier_of_def Let_def)
  then have "(10::real) ^ nat ?c \<le> 10 ^ nat (tier_of r)" by (simp add: power_increasing)
  with 1 show ?thesis by linarith
qed

lemma tier_of_lower: assumes "1 \<le> r" and "2 \<le> tier_of r" shows "10 ^ nat (tier_of r - 1) < real_of_int r"
proof -
  have pos: "(0::real) < of_int r" using assms by simp
  let ?c = "\<lceil>log 10 (of_int r :: real)\<rceil>"
  have eq: "tier_of r = ?c" using assms(2) by (simp add: tier_of_def Let_def split: if_splits)
  have "of_int (?c - 1) < log 10 (of_int r :: real)" using less_ceiling_iff [of "?c - 1" "log 10 (of_int r :: real)"] by simp
  then have "(10::real) powr (of_int (?c - 1)) < of_int r" using pos by (simp add: less_log_iff)
  moreover have "of_int (?c - 1) = real (nat (?c - 1))" using assms(2) eq by simp
  ultimately have "(10::real) powr (real (nat (?c - 1))) < of_int r" by simp
  then show ?thesis using eq by (simp add: powr_realpow)
qed

lemma tier_of_mono: assumes "1 \<le> r1" "r1 \<le> r2" shows "tier_of r1 \<le> tier_of r2"
proof -
  have "log 10 (of_int r1) \<le> log 10 (of_int r2 :: real)" using assms by (simp)
  then have "\<lceil>log 10 (of_int r1 :: real)\<rceil> \<le> \<lceil>log 10 (of_int r2 :: real)\<rceil>" by (rule ceiling_mono)
  moreover define c1 where "c1 = \<lceil>log 10 (of_int r1 :: real)\<rceil>"
  moreover define c2 where "c2 = \<lceil>log 10 (of_int r2 :: real)\<rceil>"
  ultimately have "c1 \<le> c2" by simp
  moreover have "tier_of r1 = (if c1 < 1 then 1 else c1)" "tier_of r2 = (if c2 < 1 then 1 else c2)"
    by (simp_all only: tier_of_def Let_def c1_def c2_def)
  ultimately show ?thesis by (simp split: if_splits)
qed

lemma unrounded_lower: assumes "1 \<le> r" shows "4000 / 2 ^ nat (tier_of r - 1) \<le> unrounded_points r"
proof (cases "tier_of r < 2")
  case True
  then have t: "tier_of r = 1" using tier_of_ge1 [of r] by linarith
  have "real_of_int r \<le> 10" using tier_of_upper [OF assms] t by simp
  moreover have "0 < real_of_int r" using assms by simp
  ultimately have "4000 \<le> 40000 / real_of_int r" by (simp add: pos_le_divide_eq)
  then show ?thesis using t by (simp add: unrounded_points_def)
next
  case False
  define n where "n = nat (tier_of r - 1)"
  have tn: "nat (tier_of r) = Suc n" using False by (simp add: n_def)
  have pos: "0 < real_of_int r" using assms by simp
  have "real_of_int r \<le> 10 * 10 ^ n" using tier_of_upper [OF assms] tn by simp
  then have "1 / 10 \<le> 10 ^ n / real_of_int r" using pos by (simp add: field_simps)
  then have "1 \<le> 10 ^ n / real_of_int r + 9 / 10" by linarith
  then have "4000 / 2 ^ n * 1 \<le> 4000 / 2 ^ n * (10 ^ n / real_of_int r + 9 / 10)"
    by (intro mult_left_mono) simp_all
  then show ?thesis using False by (simp add: unrounded_points_def n_def)
qed

lemma unrounded_upper: assumes "1 \<le> r" "2 \<le> tier_of r"
  shows "unrounded_points r \<le> 4000 / 2 ^ nat (tier_of r - 1) * (19 / 10)"
proof -
  define n where "n = nat (tier_of r - 1)"
  have pos: "0 < real_of_int r" using assms by simp
  have "10 ^ n < real_of_int r" using tier_of_lower [OF assms] by (simp add: n_def)
  then have "10 ^ n / real_of_int r \<le> 1" using pos by (simp add: pos_divide_le_eq)
  then have "10 ^ n / real_of_int r + 9 / 10 \<le> 19 / 10" by linarith
  then have "4000 / 2 ^ n * (10 ^ n / real_of_int r + 9 / 10) \<le> 4000 / 2 ^ n * (19 / 10)"
    by (intro mult_left_mono) simp_all
  then show ?thesis using assms(2) by (simp add: unrounded_points_def n_def)
qed

lemma unrounded_mono: assumes "1 \<le> r1" "r1 \<le> r2" shows "unrounded_points r2 \<le> unrounded_points r1"
proof (cases "tier_of r1 = tier_of r2")
  case True
  have p1: "0 < real_of_int r1" and p2: "0 < real_of_int r2" using assms by simp_all
  have le: "real_of_int r1 \<le> real_of_int r2" using assms by simp
  have d: "c / real_of_int r2 \<le> c / real_of_int r1" if "0 \<le> c" for c :: real
    using that p1 le by (simp add: frac_le)
  show ?thesis
  proof (cases "tier_of r2 < 2")
    case t: True
    then show ?thesis using True d [of 40000] by (simp add: unrounded_points_def)
  next
    case t: False
    define n where "n = nat (tier_of r2 - 1)"
    have "10 ^ n / real_of_int r2 + 9 / 10 \<le> 10 ^ n / real_of_int r1 + 9 / 10" using d [of "10 ^ n"] by simp
    then have "4000 / 2 ^ n * (10 ^ n / real_of_int r2 + 9 / 10) \<le> 4000 / 2 ^ n * (10 ^ n / real_of_int r1 + 9 / 10)"
      by (intro mult_left_mono) simp_all
    then show ?thesis using True t by (simp add: unrounded_points_def n_def)
  qed
next
  case False
  then have lt: "tier_of r1 < tier_of r2" using tier_of_mono [OF assms] by linarith
  have r2: "1 \<le> r2" using assms by linarith
  have t2: "2 \<le> tier_of r2" using lt tier_of_ge1 [of r1] by linarith
  define n1 where "n1 = nat (tier_of r1 - 1)"
  define n2 where "n2 = nat (tier_of r2 - 1)"
  have "Suc n1 \<le> n2" using lt tier_of_ge1 [of r1] by (simp add: n1_def n2_def)
  then have "(2::real) ^ Suc n1 \<le> 2 ^ n2" by (intro power_increasing) simp_all
  then have "(4000::real) / 2 ^ n2 \<le> 4000 / 2 ^ Suc n1" by (intro divide_left_mono) simp_all
  then have "4000 / 2 ^ n2 * (19 / 10) \<le> 4000 / 2 ^ Suc n1 * (19 / 10 :: real)" by simp
  also have "\<dots> \<le> 4000 / 2 ^ n1" by (simp add: field_simps)
  finally have "4000 / 2 ^ n2 * (19 / 10) \<le> (4000 :: real) / 2 ^ n1" .
  then show ?thesis using unrounded_upper [OF r2 t2] unrounded_lower [OF assms(1)]
    unfolding n1_def n2_def by linarith
qed

text \<open>
  With the floats read as real numbers the formula does not increase as the rank grows,
  from rank 1 on, within a tier and across tiers, and it is 0 at rank 0 and at every
  negative rank. This is a fact of the exact reading only: it says nothing of the rounding
  errors of \<^verbatim>\<open>math.log10\<close>, of the division and of \<^verbatim>\<open>round\<close> in binary floating point.
\<close>

lemma exact_points_monotone:
  "(1 \<le> r1 \<longrightarrow> r1 \<le> r2 \<longrightarrow> calculate_points_for_rank r2 \<le> calculate_points_for_rank r1)
   \<and> (r \<le> 0 \<longrightarrow> calculate_points_for_rank r = 0)"
proof (intro conjI impI)
  assume a: "1 \<le> r1" "r1 \<le> r2"
  then have "0 < r1" "0 < r2" by linarith+
  then show "calculate_points_for_rank r2 \<le> calculate_points_for_rank r1"
    using round2_mono [OF unrounded_mono [OF a]] by (simp add: points_unfold)
next
  assume "r \<le> 0" then show "calculate_points_for_rank r = 0" by (simp add: calculate_points_for_rank_def)
qed

section \<open>World record and first-page failure\<close>

lemma upsert_wr_holder_maps [simp]: "maps_tbl (fst (upsert_wr_holder now all_tops ds)) = maps_tbl (fst ds)"
  by (simp add: upsert_wr_holder_def Let_def split: list.splits option.splits)

lemma upsert_wr_holder_records [simp]: "records_tbl (fst (upsert_wr_holder now all_tops ds)) = records_tbl (fst ds)"
  by (simp add: upsert_wr_holder_def Let_def split: list.splits option.splits)

lemma upsert_wr_holder_new_wrs [simp]: "new_wrs (snd (upsert_wr_holder now all_tops ds)) = new_wrs (snd ds)"
  by (simp add: upsert_wr_holder_def Let_def split: list.splits option.splits)

lemma upsert_player_maps [simp]: "maps_tbl (fst (upsert_player now pid nm c ds)) = maps_tbl (fst ds)"
  by (simp add: upsert_player_def Let_def split: option.splits)

lemma upsert_player_new_wrs [simp]: "new_wrs (snd (upsert_player now pid nm c ds)) = new_wrs (snd ds)"
  by (simp add: upsert_player_def Let_def split: option.splits)

lemma upsert_record_maps [simp]: "maps_tbl (fst (upsert_record u dn now rank pid nm e ds)) = maps_tbl (fst ds)"
  by (simp add: upsert_record_def Let_def split: option.splits)

lemma upsert_record_new_wrs [simp]: "new_wrs (snd (upsert_record u dn now rank pid nm e ds)) = new_wrs (snd ds)"
  by (simp add: upsert_record_def Let_def split: option.splits)

lemma process_row_maps [simp]: "maps_tbl (fst (process_row u dn now rank e ds)) = maps_tbl (fst ds)"
  by (simp add: process_row_def Let_def)

lemma process_row_new_wrs [simp]: "new_wrs (snd (process_row u dn now rank e ds)) = new_wrs (snd ds)"
  by (simp add: process_row_def Let_def)

lemma process_rows_maps [simp]: "maps_tbl (fst (process_rows u dn now rank es ds)) = maps_tbl (fst ds)"
  by (induction es arbitrary: rank ds) simp_all

lemma process_rows_new_wrs [simp]: "new_wrs (snd (process_rows u dn now rank es ds)) = new_wrs (snd ds)"
  by (induction es arbitrary: rank ds) simp_all

lemma process_rows_snapshot [simp]:
  "wr_snapshot u' (fst (process_rows u dn now rank es ds)) = wr_snapshot u' (fst ds)"
  by (simp add: wr_snapshot_def)

lemma upsert_wr_holder_snapshot [simp]:
  "wr_snapshot u (fst (upsert_wr_holder now all_tops ds)) = wr_snapshot u (fst ds)"
  by (simp add: wr_snapshot_def)

lemma wr_snapshot_cong: "maps_tbl d = maps_tbl d' \<Longrightarrow> wr_snapshot u d = wr_snapshot u d'"
  by (simp add: wr_snapshot_def)

lemma wr_snapshot_update_playercount [simp]:
  "wr_snapshot u (update_map u (\<lambda>m. m\<lparr>last_playercount := c\<rparr>) d) = wr_snapshot u d"
  by (simp add: wr_snapshot_def update_map_def split: option.splits)

lemma stored_wr_ids: "fst (stored_wr u d) = fst (wr_snapshot u d)" "fst (snd (stored_wr u d)) = fst (snd (wr_snapshot u d))"
  by (simp_all add: stored_wr_def wr_snapshot_def split: option.splits)

lemma reconcile_wr_spec:
  assumes "all_tops \<noteq> [] \<Longrightarrow> maps_tbl (fst ds) u \<noteq> None"
  shows "new_wrs (snd (reconcile_wr u dn now all_tops ds)) =
           (if spec_wr_changed (wr_candidate all_tops) (wr_snapshot u (fst ds))
            then new_wrs (snd ds) @ [(dn,
                   (case wr_candidate all_tops of [] \<Rightarrow> no_wr_holder
                    | e # _ \<Rightarrow> get_or (player_name e) ''UnknownWRPlayer''),
                   (case wr_candidate all_tops of [] \<Rightarrow> None | e # _ \<Rightarrow> entry_time e),
                   snd (snd (stored_wr u (fst ds))), fst (snd (wr_snapshot u (fst ds))))]
            else new_wrs (snd ds))"
    and "wr_snapshot u (fst (reconcile_wr u dn now all_tops ds)) =
           (if spec_wr_changed (wr_candidate all_tops) (wr_snapshot u (fst ds))
            then (case wr_candidate all_tops of [] \<Rightarrow> (None, None, None)
                  | e # _ \<Rightarrow> (player_id e, entry_time e, entry_timestamp e))
            else wr_snapshot u (fst ds))"
  using assms
  by (cases all_tops; cases "maps_tbl (fst ds) u";
      auto simp: reconcile_wr_def Let_def spec_wr_changed_def wr_candidate_def stored_wr_def
                 wr_snapshot_def update_map_def
         split: option.splits)+

lemma upsert_map_snapshot [simp]: "wr_snapshot u (upsert_map u entry now c d) = wr_snapshot u d"
  by (simp add: wr_snapshot_def upsert_map_def Let_def split: option.splits)

lemma upsert_map_players [simp]: "players_tbl (upsert_map u entry now c d) = players_tbl d"
  by (simp add: upsert_map_def Let_def)

lemma upsert_map_records [simp]: "records_tbl (upsert_map u entry now c d) = records_tbl d"
  by (simp add: upsert_map_def Let_def)

lemma upsert_map_row [simp]: "maps_tbl (upsert_map u entry now c d) u \<noteq> None"
  by (simp add: upsert_map_def Let_def)

lemma upsert_map_row_ex [simp]: "\<exists>y. maps_tbl (upsert_map u entry now c d) u = Some y"
  by (simp add: upsert_map_def Let_def)

lemma fetch_pages_keeps:
  "fetch_pages base u entry now rs st = Some st' \<Longrightarrow>
     wr_snapshot u (fetch_db st') = wr_snapshot u (fetch_db st)
     \<and> players_tbl (fetch_db st') = players_tbl (fetch_db st)
     \<and> records_tbl (fetch_db st') = records_tbl (fetch_db st)"
proof (induction rs arbitrary: st)
  case Nil
  then show ?case by simp
next
  case (Cons resp rs)
  show ?case
  proof (cases resp)
    case RequestException
    with Cons.prems show ?thesis by (auto simp: Let_def)
  next
    case JSONDecodeError
    with Cons.prems show ?thesis by (auto simp: Let_def)
  next
    case (Response reported page_tops)
    with Cons.prems show ?thesis
      by (auto simp: Let_def split: if_splits dest!: Cons.IH)
  qed
qed

lemma fetch_pages_map_row:
  "fetch_pages base u entry now rs st = Some st' \<Longrightarrow>
   (all_tops_for_map st \<noteq> [] \<longrightarrow> maps_tbl (fetch_db st) u \<noteq> None) \<Longrightarrow>
   (first_fetch_done st \<longrightarrow> maps_tbl (fetch_db st) u \<noteq> None) \<Longrightarrow>
   all_tops_for_map st' \<noteq> [] \<longrightarrow> maps_tbl (fetch_db st') u \<noteq> None"
proof (induction rs arbitrary: st)
  case Nil
  then show ?case by simp
next
  case (Cons resp rs)
  show ?case
  proof (cases resp)
    case RequestException
    with Cons.prems show ?thesis by (auto simp: Let_def)
  next
    case JSONDecodeError
    with Cons.prems show ?thesis by (auto simp: Let_def)
  next
    case (Response reported page_tops)
    with Cons.prems show ?thesis
      by (auto simp: Let_def split: if_splits dest!: Cons.IH)
  qed
qed

lemma reconcile_map_wr:
  assumes "all_tops \<noteq> [] \<Longrightarrow> maps_tbl (fst ds) u \<noteq> None"
  shows "\<exists>old_holder. new_wrs (snd (reconcile_map u dn now all_tops reported ds)) =
           (if spec_wr_changed (wr_candidate all_tops) (wr_snapshot u (fst ds))
            then new_wrs (snd ds) @ [(dn,
                   (case wr_candidate all_tops of [] \<Rightarrow> no_wr_holder | e # _ \<Rightarrow> get_or (player_name e) ''UnknownWRPlayer''),
                   (case wr_candidate all_tops of [] \<Rightarrow> None | e # _ \<Rightarrow> entry_time e),
                   old_holder, fst (snd (wr_snapshot u (fst ds))))]
            else new_wrs (snd ds))"
    and "wr_snapshot u (fst (reconcile_map u dn now all_tops reported ds)) =
           (if spec_wr_changed (wr_candidate all_tops) (wr_snapshot u (fst ds))
            then (case wr_candidate all_tops of [] \<Rightarrow> (None, None, None) | e # _ \<Rightarrow> (player_id e, entry_time e, entry_timestamp e))
            else wr_snapshot u (fst ds))"
proof -
  define ds1 where "ds1 = (if int (length all_tops) \<noteq> reported
                 then (update_map u (\<lambda>m. m\<lparr>last_playercount := int (length all_tops)\<rparr>) (fst ds), snd ds)
                 else ds)"
  define ds2 where "ds2 = upsert_wr_holder now all_tops ds1"
  have r: "reconcile_map u dn now all_tops reported ds
         = process_rows u dn now 1 all_tops (reconcile_wr u dn now all_tops ds2)"
    by (simp add: reconcile_map_def ds1_def ds2_def Let_def)
  have s1: "wr_snapshot u (fst ds1) = wr_snapshot u (fst ds)" "new_wrs (snd ds1) = new_wrs (snd ds)"
    by (simp_all add: ds1_def)
  have row1: "maps_tbl (fst ds1) u \<noteq> None" if "all_tops \<noteq> []"
    using assms[OF that] by (auto simp: ds1_def update_map_def)
  have s2: "wr_snapshot u (fst ds2) = wr_snapshot u (fst ds)" "new_wrs (snd ds2) = new_wrs (snd ds)"
    using s1 by (simp_all add: ds2_def)
  have row2: "all_tops \<noteq> [] \<Longrightarrow> maps_tbl (fst ds2) u \<noteq> None"
    using row1 by (simp add: ds2_def)
  note rw = reconcile_wr_spec[of all_tops ds2 u dn now, OF row2, simplified s2]
  show "\<exists>old_holder. new_wrs (snd (reconcile_map u dn now all_tops reported ds)) =
           (if spec_wr_changed (wr_candidate all_tops) (wr_snapshot u (fst ds))
            then new_wrs (snd ds) @ [(dn,
                   (case wr_candidate all_tops of [] \<Rightarrow> no_wr_holder | e # _ \<Rightarrow> get_or (player_name e) ''UnknownWRPlayer''),
                   (case wr_candidate all_tops of [] \<Rightarrow> None | e # _ \<Rightarrow> entry_time e),
                   old_holder, fst (snd (wr_snapshot u (fst ds))))]
            else new_wrs (snd ds))"
    unfolding r by (rule exI[of _ "snd (snd (stored_wr u (fst ds2)))"]) (simp add: rw(1))
  show "wr_snapshot u (fst (reconcile_map u dn now all_tops reported ds)) =
           (if spec_wr_changed (wr_candidate all_tops) (wr_snapshot u (fst ds))
            then (case wr_candidate all_tops of [] \<Rightarrow> (None, None, None) | e # _ \<Rightarrow> (player_id e, entry_time e, entry_timestamp e))
            else wr_snapshot u (fst ds))"
    unfolding r using rw(2) by simp
qed

lemma sample_uid: "extract_map_uid_from_url (url_template sample_entry) = Some ''ABC''"
  by code_simp

lemma rank1_row_without_id:
  "map_option (\<lambda>(urls, d', s'). (new_wrs s', wr_snapshot ''ABC'' d'))
     (process_map ''2025-05-02T12:00:00'' sample_entry
        [Response (Some 1) (Some [(sample_row ''p2'' ''Bob'' 51000)\<lparr>player_id := None\<rparr>])]
        (empty_db, empty_session))
   = Some ([], (None, None, None))"
  by code_simp

lemma rank1_row_without_time:
  "map_option (\<lambda>(urls, d', s'). (new_wrs s', wr_snapshot ''ABC'' d'))
     (process_map ''2025-05-02T12:00:00'' sample_entry
        [Response (Some 1) (Some [(sample_row ''p2'' ''Bob'' 51000)\<lparr>entry_time := None\<rparr>])]
        (empty_db, empty_session))
   = Some ([], (None, None, None))"
  by code_simp

text \<open>
  C2, as the claim states it, fails on a rank-1 row that lacks a player id or a time. For a
  map with nothing stored, a rank-1 row with the time 51000 and no player id has a time
  that differs from the stored one, and a rank-1 row of player \<^verbatim>\<open>p2\<close> with no time has a
  holder id that differs from the stored one; in both runs no event is recorded and the
  stored snapshot stays as it was.
\<close>

theorem wr_reconciliation_counterexample:
  "spec_wr_changed [(sample_row ''p2'' ''Bob'' 51000)\<lparr>player_id := None\<rparr>]
     (wr_snapshot ''ABC'' empty_db)
   \<and> (\<exists>urls d' s'.
         process_map ''2025-05-02T12:00:00'' sample_entry
           [Response (Some 1) (Some [(sample_row ''p2'' ''Bob'' 51000)\<lparr>player_id := None\<rparr>])]
           (empty_db, empty_session) = Some (urls, d', s')
         \<and> new_wrs s' = [] \<and> wr_snapshot ''ABC'' d' = wr_snapshot ''ABC'' empty_db)
   \<and> spec_wr_changed [(sample_row ''p2'' ''Bob'' 51000)\<lparr>entry_time := None\<rparr>]
     (wr_snapshot ''ABC'' empty_db)
   \<and> (\<exists>urls d' s'.
         process_map ''2025-05-02T12:00:00'' sample_entry
           [Response (Some 1) (Some [(sample_row ''p2'' ''Bob'' 51000)\<lparr>entry_time := None\<rparr>])]
           (empty_db, empty_session) = Some (urls, d', s')
         \<and> new_wrs s' = [] \<and> wr_snapshot ''ABC'' d' = wr_snapshot ''ABC'' empty_db)"
proof -
  have s: "wr_snapshot ''ABC'' empty_db = (None, None, None)"
    by (simp add: wr_snapshot_def empty_db_def)
  have c: "spec_wr_changed [(sample_row ''p2'' ''Bob'' 51000)\<lparr>player_id := None\<rparr>] (None, None, None)"
          "spec_wr_changed [(sample_row ''p2'' ''Bob'' 51000)\<lparr>entry_time := None\<rparr>] (None, None, None)"
    by (simp_all add: spec_wr_changed_def sample_row_def)
  from rank1_row_without_id have a:
    "\<exists>urls d' s'.
         process_map ''2025-05-02T12:00:00'' sample_entry
           [Response (Some 1) (Some [(sample_row ''p2'' ''Bob'' 51000)\<lparr>player_id := None\<rparr>])]
           (empty_db, empty_session) = Some (urls, d', s')
         \<and> new_wrs s' = [] \<and> wr_snapshot ''ABC'' d' = (None, None, None)"
    by (cases "process_map ''2025-05-02T12:00:00'' sample_entry
           [Response (Some 1) (Some [(sample_row ''p2'' ''Bob'' 51000)\<lparr>player_id := None\<rparr>])]
           (empty_db, empty_session)") auto
  from rank1_row_without_time have b:
    "\<exists>urls d' s'.
         process_map ''2025-05-02T12:00:00'' sample_entry
           [Response (Some 1) (Some [(sample_row ''p2'' ''Bob'' 51000)\<lparr>entry_time := None\<rparr>])]
           (empty_db, empty_session) = Some (urls, d', s')
         \<and> new_wrs s' = [] \<and> wr_snapshot ''ABC'' d' = (None, None, None)"
    by (cases "process_map ''2025-05-02T12:00:00'' sample_entry
           [Response (Some 1) (Some [(sample_row ''p2'' ''Bob'' 51000)\<lparr>entry_time := None\<rparr>])]
           (empty_db, empty_session)") auto
  from a b c show ?thesis unfolding s by blast
qed

text \<open>
  C2, amended: a leaderboard whose rank-1 row lacks a player id or a time counts as an empty
  one. Read so, a run of one map appends a world-record event and overwrites the stored
  snapshot exactly when the fetched rank-1 holder id differs from the stored one, or the
  fetched rank-1 time differs, or a stored holder existed and the leaderboard is empty (then
  the event names no new holder and the snapshot is cleared); otherwise it leaves the
  events and the snapshot alone.
\<close>

theorem wr_reconciliation:
  assumes "extract_map_uid_from_url (url_template entry) = Some u"
      and "fetch_pages (clean_base_url (url_template entry)) u entry now responses
             (initial_fetch_state d) = Some st"
  shows "\<exists>urls d' s' old_holder.
           process_map now entry responses (d, s) = Some (urls, d', s')
           \<and> new_wrs s' =
               (if spec_wr_changed (wr_candidate (all_tops_for_map st)) (wr_snapshot u d)
                then new_wrs s @ [(entry_name entry,
                       (case wr_candidate (all_tops_for_map st) of [] \<Rightarrow> no_wr_holder
                        | e # _ \<Rightarrow> get_or (player_name e) ''UnknownWRPlayer''),
                       (case wr_candidate (all_tops_for_map st) of [] \<Rightarrow> None | e # _ \<Rightarrow> entry_time e),
                       old_holder, fst (snd (wr_snapshot u d)))]
                else new_wrs s)
           \<and> wr_snapshot u d' =
               (if spec_wr_changed (wr_candidate (all_tops_for_map st)) (wr_snapshot u d)
                then (case wr_candidate (all_tops_for_map st) of [] \<Rightarrow> (None, None, None)
                      | e # _ \<Rightarrow> (player_id e, entry_time e, entry_timestamp e))
                else wr_snapshot u d)"
proof -
  have keep: "wr_snapshot u (fetch_db st) = wr_snapshot u d"
    using fetch_pages_keeps [OF assms(2)] by (simp add: initial_fetch_state_def)
  have row: "all_tops_for_map st \<noteq> [] \<Longrightarrow> maps_tbl (fst (fetch_db st, s)) u \<noteq> None"
    using fetch_pages_map_row [OF assms(2)] by (simp add: initial_fetch_state_def)
  have pm: "process_map now entry responses (d, s) =
        Some (requested_urls st,
              reconcile_map u (entry_name entry) now (all_tops_for_map st)
                (map_total_playercount_api st) (fetch_db st, s))"
    using assms(1,2) by (simp add: process_map_def)
  note rm = reconcile_map_wr [where ds = "(fetch_db st, s)" and u = u
      and all_tops = "all_tops_for_map st" and dn = "entry_name entry" and now = now
      and reported = "map_total_playercount_api st", OF row]
  have "\<exists>old_holder.
    new_wrs (snd (reconcile_map u (entry_name entry) now (all_tops_for_map st)
                (map_total_playercount_api st) (fetch_db st, s))) =
           (if spec_wr_changed (wr_candidate (all_tops_for_map st)) (wr_snapshot u d)
            then new_wrs s @ [(entry_name entry,
                   (case wr_candidate (all_tops_for_map st) of [] \<Rightarrow> no_wr_holder | e # _ \<Rightarrow> get_or (player_name e) ''UnknownWRPlayer''),
                   (case wr_candidate (all_tops_for_map st) of [] \<Rightarrow> None | e # _ \<Rightarrow> entry_time e),
                   old_holder, fst (snd (wr_snapshot u d)))]
            else new_wrs s)"
    using rm(1) by (auto simp: keep split: if_splits)
  then obtain old_holder where ev:
    "new_wrs (snd (reconcile_map u (entry_name entry) now (all_tops_for_map st)
                (map_total_playercount_api st) (fetch_db st, s))) =
           (if spec_wr_changed (wr_candidate (all_tops_for_map st)) (wr_snapshot u d)
            then new_wrs s @ [(entry_name entry,
                   (case wr_candidate (all_tops_for_map st) of [] \<Rightarrow> no_wr_holder | e # _ \<Rightarrow> get_or (player_name e) ''UnknownWRPlayer''),
                   (case wr_candidate (all_tops_for_map st) of [] \<Rightarrow> None | e # _ \<Rightarrow> entry_time e),
                   old_holder, fst (snd (wr_snapshot u d)))]
            else new_wrs s)"
    by blast
  have sn: "wr_snapshot u (fst (reconcile_map u (entry_name entry) now (all_tops_for_map st)
                (map_total_playercount_api st) (fetch_db st, s))) =
           (if spec_wr_changed (wr_candidate (all_tops_for_map st)) (wr_snapshot u d)
            then (case wr_candidate (all_tops_for_map st) of [] \<Rightarrow> (None, None, None) | e # _ \<Rightarrow> (player_id e, entry_time e, entry_timestamp e))
            else wr_snapshot u d)"
    using rm(2) by (simp add: keep)
  show ?thesis
    unfolding pm
    by (intro exI [of _ "requested_urls st"]
          exI [of _ "fst (reconcile_map u (entry_name entry) now (all_tops_for_map st)
                (map_total_playercount_api st) (fetch_db st, s))"]
          exI [of _ "snd (reconcile_map u (entry_name entry) now (all_tops_for_map st)
                (map_total_playercount_api st) (fetch_db st, s))"]
          exI [of _ old_holder]) (simp add: ev sn)
qed

theorem wr_reconciliation_witness:
  "\<exists>urls d' s' old_holder.
     process_map ''2025-05-02T12:00:00'' sample_entry
        [Response (Some 1) (Some [sample_row ''p2'' ''Bob'' 51000])] (db_with_wr, empty_session)
       = Some (urls, d', s')
     \<and> new_wrs s' = [(''Alpha'', ''Bob'', Some 51000, old_holder, Some 52000)]
     \<and> wr_snapshot ''ABC'' d' = (Some ''p2'', Some 51000, Some ''2025-05-01T10:00:00'')"
proof -
  have h2: "fetch_pages (clean_base_url (url_template sample_entry)) ''ABC'' sample_entry
             ''2025-05-02T12:00:00'' [Response (Some 1) (Some [sample_row ''p2'' ''Bob'' 51000])]
             (initial_fetch_state db_with_wr)
        = Some \<lparr>all_tops_for_map = [sample_row ''p2'' ''Bob'' 51000], current_offset = 0,
                 map_total_playercount_api = 1, first_fetch_done = True,
                 requested_urls = [paginated_url (clean_base_url (url_template sample_entry)) 0],
                 fetch_db = upsert_map ''ABC'' sample_entry ''2025-05-02T12:00:00'' 1 db_with_wr\<rparr>"
    by (simp add: initial_fetch_state_def Let_def RECORDS_PER_PAGE_def)
  show ?thesis
    using wr_reconciliation [OF sample_uid h2, of empty_session]
    by (simp add: sample_row_def spec_wr_changed_def wr_candidate_def wr_snapshot_def db_with_wr_def
          sample_map_row_def sample_entry_def empty_session_def)
qed

text \<open>
  C5: when the first page request of a map fails, with either exception, and the store
  holds a world-record holder for the map, the run of that map makes this one request,
  clears the stored world record and appends one event with no new holder.
\<close>

theorem first_page_failure_clears_wr:
  assumes "extract_map_uid_from_url (url_template entry) = Some u"
      and "resp = RequestException \<or> resp = JSONDecodeError"
      and "maps_tbl d u = Some m" and "wr_player_id m = Some holder"
  shows "process_map now entry (resp # rest) (d, s) =
           Some ([paginated_url (clean_base_url (url_template entry)) 0],
                 d\<lparr>maps_tbl := (maps_tbl d)(u \<mapsto>
                      m\<lparr>wr_player_id := None, wr_time_ms := None, wr_game_timestamp := None,
                        wr_script_recorded_at := Some now, is_new_wr_since_last_fetch := True\<rparr>)\<rparr>,
                 s\<lparr>new_wrs := new_wrs s
                      @ [(entry_name entry, no_wr_holder, None, snd (snd (stored_wr u d)), wr_time_ms m)]\<rparr>)"
  using assms
  by (auto simp: process_map_def initial_fetch_state_def Let_def reconcile_map_def
        upsert_wr_holder_def reconcile_wr_def stored_wr_def update_map_def)

theorem first_page_failure_clears_wr_witness:
  "\<exists>urls d' s'.
     process_map ''2025-05-02T12:00:00'' sample_entry [JSONDecodeError] (db_with_wr, empty_session)
       = Some (urls, d', s')
     \<and> wr_snapshot ''ABC'' d' = (None, None, None)
     \<and> new_wrs s' = [(''Alpha'', no_wr_holder, None, ''Ann'', Some 52000)]"
proof -
  have m: "maps_tbl db_with_wr ''ABC'' = Some (sample_map_row (Some ''p1'') (Some 52000))"
    by (simp add: db_with_wr_def)
  have h: "wr_player_id (sample_map_row (Some ''p1'') (Some 52000)) = Some ''p1''"
    by (simp add: sample_map_row_def)
  show ?thesis
    using first_page_failure_clears_wr [OF sample_uid _ m h, of JSONDecodeError
        "''2025-05-02T12:00:00''" "[]" empty_session]
    by (simp add: wr_snapshot_def stored_wr_def db_with_wr_def sample_map_row_def sample_player_def
          sample_entry_def empty_session_def)
qed

lemma upsert_player_records [simp]:
  "records_tbl (fst (upsert_player now pid nm c ds)) = records_tbl (fst ds)"
  by (simp add: upsert_player_def Let_def split: option.splits)

lemma upsert_player_new_pbs [simp]:
  "new_pbs (snd (upsert_player now pid nm c ds)) = new_pbs (snd ds)"
  by (simp add: upsert_player_def Let_def split: option.splits)

section \<open>Page loop termination\<close>

lemma fetch_pages_step:
  "fetch_pages base u entry now (Response reported page_tops # rs) st =
     (let rows = get_or page_tops [];
          st2 = (if \<not> first_fetch_done st
                 then st\<lparr>requested_urls := requested_urls st @ [paginated_url base (current_offset st)],
                        map_total_playercount_api := get_or reported 0, first_fetch_done := True,
                        fetch_db := upsert_map u entry now (get_or reported 0) (fetch_db st)\<rparr>
                 else st\<lparr>requested_urls := requested_urls st @ [paginated_url base (current_offset st)]\<rparr>)
      in if rows = [] then Some st2
         else if stops_after_page st reported rows
         then Some (if length rows < RECORDS_PER_PAGE
                    then st2\<lparr>all_tops_for_map := all_tops_for_map st @ rows\<rparr>
                    else st2\<lparr>all_tops_for_map := all_tops_for_map st @ rows,
                           current_offset := current_offset st + RECORDS_PER_PAGE\<rparr>)
         else fetch_pages base u entry now rs
                (st2\<lparr>all_tops_for_map := all_tops_for_map st @ rows,
                     current_offset := current_offset st + RECORDS_PER_PAGE\<rparr>))"
  by (auto simp: Let_def stops_after_page_def count_in_force_def)

lemma one_page_stops:
  assumes "stops_after_page st reported (get_or page_tops [])"
  shows "fetch_pages base u entry now (Response reported page_tops # rest) st
           = fetch_pages base u entry now [Response reported page_tops] st"
    and "fetch_pages base u entry now [Response reported page_tops] st \<noteq> None"
  using assms
  by (simp_all add: fetch_pages_step Let_def del: fetch_pages.simps)

lemma one_page_continues:
  assumes "\<not> stops_after_page st reported (get_or page_tops [])"
  shows "fetch_pages base u entry now [Response reported page_tops] st = None"
proof -
  from assms have "\<not> length (get_or page_tops []) < RECORDS_PER_PAGE"
    by (simp add: stops_after_page_def)
  then have "get_or page_tops [] \<noteq> []" by (auto simp: RECORDS_PER_PAGE_def)
  with assms show ?thesis
    by (simp add: fetch_pages_step Let_def del: fetch_pages.simps(2))
qed

lemma three_pages:
  assumes "length p1 = 100" "length p2 = 100" "length p3 = 50"
  shows "\<exists>st'. fetch_pages base u entry now
            (Response (Some 250) (Some p1) # Response r2 (Some p2) # Response r3 (Some p3) # rest)
            (initial_fetch_state d) = Some st'
          \<and> all_tops_for_map st' = p1 @ p2 @ p3
          \<and> requested_urls st' = [paginated_url base 0, paginated_url base 100, paginated_url base 200]"
proof -
  have "p1 \<noteq> []" "p2 \<noteq> []" "p3 \<noteq> []" using assms by auto
  then show ?thesis using assms
    by (simp add: Let_def initial_fetch_state_def RECORDS_PER_PAGE_def)
qed

lemma full_pages_zero_count:
  "map_total_playercount_api st = 0 \<Longrightarrow> current_offset st + 100 * Suc k = 10000 \<Longrightarrow>
   length rows = 100 \<Longrightarrow>
   \<exists>st'. fetch_pages base u entry now (replicate (Suc k) (Response (Some 0) (Some rows)) @ rest) st = Some st'
     \<and> length (all_tops_for_map st') = length (all_tops_for_map st) + 100 * Suc k
     \<and> length (requested_urls st') = length (requested_urls st) + Suc k"
proof (induction k arbitrary: st)
  case 0
  then have "rows \<noteq> []" by auto
  with 0 show ?case by (auto simp: Let_def RECORDS_PER_PAGE_def)
next
  case (Suc k)
  then have ne: "rows \<noteq> []" by auto
  define st4 where "st4 = (if \<not> first_fetch_done st
          then st\<lparr>requested_urls := requested_urls st @ [paginated_url base (current_offset st)],
                  map_total_playercount_api := 0, first_fetch_done := True,
                  fetch_db := upsert_map u entry now 0 (fetch_db st)\<rparr>
          else st\<lparr>requested_urls := requested_urls st @ [paginated_url base (current_offset st)]\<rparr>)
         \<lparr>all_tops_for_map := all_tops_for_map st @ rows, current_offset := current_offset st + 100\<rparr>"
  have step: "fetch_pages base u entry now (replicate (Suc (Suc k)) (Response (Some 0) (Some rows)) @ rest) st
      = fetch_pages base u entry now (replicate (Suc k) (Response (Some 0) (Some rows)) @ rest) st4"
    using Suc.prems ne by (auto simp: Let_def RECORDS_PER_PAGE_def st4_def)
  have "map_total_playercount_api st4 = 0" "current_offset st4 + 100 * Suc k = 10000"
    using Suc.prems by (auto simp: st4_def)
  from Suc.IH [OF this Suc.prems(3)] obtain st' where
    "fetch_pages base u entry now (replicate (Suc k) (Response (Some 0) (Some rows)) @ rest) st4 = Some st'"
    "length (all_tops_for_map st') = length (all_tops_for_map st4) + 100 * Suc k"
    "length (requested_urls st') = length (requested_urls st4) + Suc k" by blast
  then show ?case using Suc.prems(3) unfolding step by (auto simp: st4_def)
qed

text \<open>
  C8, as the claim states its safety cap, fails: with a reported count of 0 and full pages
  the loop stops after the hundredth page, with exactly 10000 rows fetched and not more,
  although a further answer was there to be asked for.
\<close>

theorem safety_cap_counterexample:
  "\<exists>st'. fetch_pages (clean_base_url (url_template sample_entry)) ''ABC'' sample_entry
            ''2025-05-02T12:00:00''
            (replicate (Suc 99) (Response (Some 0) (Some (replicate 100 (sample_row ''p1'' ''Ann'' 52000))))
               @ [Response (Some 0) (Some (replicate 100 (sample_row ''p1'' ''Ann'' 52000)))])
            (initial_fetch_state empty_db) = Some st'
        \<and> length (requested_urls st') = 100
        \<and> length (all_tops_for_map st') = 10000
        \<and> \<not> 10000 < length (all_tops_for_map st')"
proof -
  have a: "map_total_playercount_api (initial_fetch_state empty_db) = 0"
    and b: "current_offset (initial_fetch_state empty_db) + 100 * Suc 99 = 10000"
    and c: "length (replicate 100 (sample_row ''p1'' ''Ann'' 52000)) = 100"
    by (simp_all add: initial_fetch_state_def)
  from full_pages_zero_count [OF a b c, where base = "clean_base_url (url_template sample_entry)"
      and u = "''ABC''" and entry = sample_entry and now = "''2025-05-02T12:00:00''"
      and rest = "[Response (Some 0) (Some (replicate 100 (sample_row ''p1'' ''Ann'' 52000)))]"]
  show ?thesis
    by (auto simp: initial_fetch_state_def simp del: fetch_pages.simps replicate.simps)
qed

text \<open>
  C8, amended: after a decoded page the loop stops exactly when the page has fewer than 100
  rows (none at all included), or the advanced offset has reached the reported count and
  that count is positive, or the reported count is 0 and the advanced offset has reached
  10000; then it returns, whatever answers would follow, and otherwise it asks for the next
  page. A map reported with 250 players whose pages hold 100, 100 and 50 rows is left after
  the third request.
\<close>

theorem pagination_termination:
  "(stops_after_page st reported (get_or page_tops []) \<longrightarrow>
      fetch_pages base u entry now [Response reported page_tops] st \<noteq> None
      \<and> (\<forall>rest. fetch_pages base u entry now (Response reported page_tops # rest) st
                 = fetch_pages base u entry now [Response reported page_tops] st))
   \<and> (\<not> stops_after_page st reported (get_or page_tops []) \<longrightarrow>
        fetch_pages base u entry now [Response reported page_tops] st = None)
   \<and> (length first_page = 100 \<longrightarrow> length second_page = 100 \<longrightarrow> length third_page = 50 \<longrightarrow>
        (\<exists>st'. fetch_pages base' u' entry' now'
            (Response (Some 250) (Some first_page) # Response second_count (Some second_page) # Response third_count (Some third_page) # later)
            (initial_fetch_state d) = Some st'
          \<and> all_tops_for_map st' = first_page @ second_page @ third_page
          \<and> requested_urls st'
               = [paginated_url base' 0, paginated_url base' 100, paginated_url base' 200]))"
proof (intro conjI impI allI)
  assume s: "stops_after_page st reported (get_or page_tops [])"
  show "fetch_pages base u entry now [Response reported page_tops] st \<noteq> None"
    by (rule one_page_stops(2) [OF s])
  show "fetch_pages base u entry now (Response reported page_tops # rest) st
          = fetch_pages base u entry now [Response reported page_tops] st" for rest
    by (rule one_page_stops(1) [OF s])
next
  assume "\<not> stops_after_page st reported (get_or page_tops [])"
  then show "fetch_pages base u entry now [Response reported page_tops] st = None"
    by (rule one_page_continues)
next
  assume "length first_page = 100" "length second_page = 100" "length third_page = 50"
  then show "\<exists>st'. fetch_pages base' u' entry' now'
            (Response (Some 250) (Some first_page) # Response second_count (Some second_page) # Response third_count (Some third_page) # later)
            (initial_fetch_state d) = Some st'
          \<and> all_tops_for_map st' = first_page @ second_page @ third_page
          \<and> requested_urls st'
               = [paginated_url base' 0, paginated_url base' 100, paginated_url base' 200]"
    by (rule three_pages)
qed

theorem pagination_termination_witness:
  "fetch_pages ''https://trackmania.io/api/leaderboard/map/ABC'' ''ABC'' sample_entry
       ''2025-05-02T12:00:00''
       [Response (Some 250) (Some (replicate 50 (sample_row ''p1'' ''Ann'' 52000)))]
       (initial_fetch_state empty_db) \<noteq> None
   \<and> fetch_pages ''https://trackmania.io/api/leaderboard/map/ABC'' ''ABC'' sample_entry
       ''2025-05-02T12:00:00''
       [Response (Some 250) (Some (replicate 100 (sample_row ''p1'' ''Ann'' 52000)))]
       (initial_fetch_state empty_db) = None
   \<and> (\<exists>st'. fetch_pages ''https://trackmania.io/api/leaderboard/map/ABC'' ''ABC'' sample_entry
         ''2025-05-02T12:00:00''
         [Response (Some 250) (Some (replicate 100 (sample_row ''p1'' ''Ann'' 52000))),
          Response (Some 250) (Some (replicate 100 (sample_row ''p2'' ''Bob'' 53000))),
          Response (Some 250) (Some (replicate 50 (sample_row ''p3'' ''Cy'' 54000))),
          Response (Some 250) (Some (replicate 100 (sample_row ''p4'' ''Di'' 55000)))]
         (initial_fetch_state empty_db) = Some st'
       \<and> length (all_tops_for_map st') = 250
       \<and> length (requested_urls st') = 3)"
proof -
  note t1 = pagination_termination [where page_tops = "Some (replicate 50 (sample_row ''p1'' ''Ann'' 52000))"
      and st = "initial_fetch_state empty_db" and reported = "Some 250"
      and base = "''https://trackmania.io/api/leaderboard/map/ABC''" and u = "''ABC''"
      and entry = sample_entry and now = "''2025-05-02T12:00:00''"
      and first_page = "replicate 100 (sample_row ''p1'' ''Ann'' 52000)"
      and second_page = "replicate 100 (sample_row ''p2'' ''Bob'' 53000)"
      and third_page = "replicate 50 (sample_row ''p3'' ''Cy'' 54000)"
      and base' = "''https://trackmania.io/api/leaderboard/map/ABC''" and u' = "''ABC''"
      and entry' = sample_entry and now' = "''2025-05-02T12:00:00''"
      and second_count = "Some 250" and third_count = "Some 250"
      and later = "[Response (Some 250) (Some (replicate 100 (sample_row ''p4'' ''Di'' 55000)))]"
      and d = empty_db]
  note t2 = pagination_termination [where page_tops = "Some (replicate 100 (sample_row ''p1'' ''Ann'' 52000))"
      and st = "initial_fetch_state empty_db" and reported = "Some 250"
      and base = "''https://trackmania.io/api/leaderboard/map/ABC''" and u = "''ABC''"
      and entry = sample_entry and now = "''2025-05-02T12:00:00''"]
  have s1: "stops_after_page (initial_fetch_state empty_db) (Some 250)
              (get_or (Some (replicate 50 (sample_row ''p1'' ''Ann'' 52000))) [])"
    by (simp add: stops_after_page_def RECORDS_PER_PAGE_def)
  have s2: "\<not> stops_after_page (initial_fetch_state empty_db) (Some 250)
              (get_or (Some (replicate 100 (sample_row ''p1'' ''Ann'' 52000))) [])"
    by (simp add: stops_after_page_def count_in_force_def initial_fetch_state_def RECORDS_PER_PAGE_def)
  have l: "length (replicate 100 (sample_row ''p1'' ''Ann'' 52000)) = 100"
          "length (replicate 100 (sample_row ''p2'' ''Bob'' 53000)) = 100"
          "length (replicate 50 (sample_row ''p3'' ''Cy'' 54000)) = 50"
    by simp_all
  have A: "fetch_pages ''https://trackmania.io/api/leaderboard/map/ABC'' ''ABC'' sample_entry
       ''2025-05-02T12:00:00''
       [Response (Some 250) (Some (replicate 50 (sample_row ''p1'' ''Ann'' 52000)))]
       (initial_fetch_state empty_db) \<noteq> None"
    by (rule t1 [THEN conjunct1, THEN mp, OF s1, THEN conjunct1])
  have B: "fetch_pages ''https://trackmania.io/api/leaderboard/map/ABC'' ''ABC'' sample_entry
       ''2025-05-02T12:00:00''
       [Response (Some 250) (Some (replicate 100 (sample_row ''p1'' ''Ann'' 52000)))]
       (initial_fetch_state empty_db) = None"
    by (rule t2 [THEN conjunct2, THEN conjunct1, THEN mp, OF s2])
  from t1 [THEN conjunct2, THEN conjunct2, THEN mp, THEN mp, THEN mp, OF l] obtain st' where C: "fetch_pages ''https://trackmania.io/api/leaderboard/map/ABC'' ''ABC'' sample_entry
         ''2025-05-02T12:00:00''
         [Response (Some 250) (Some (replicate 100 (sample_row ''p1'' ''Ann'' 52000))),
          Response (Some 250) (Some (replicate 100 (sample_row ''p2'' ''Bob'' 53000))),
          Response (Some 250) (Some (replicate 50 (sample_row ''p3'' ''Cy'' 54000))),
          Response (Some 250) (Some (replicate 100 (sample_row ''p4'' ''Di'' 55000)))]
         (initial_fetch_state empty_db) = Some st'"
       "all_tops_for_map st' = replicate 100 (sample_row ''p1'' ''Ann'' 52000)
           @ replicate 100 (sample_row ''p2'' ''Bob'' 53000) @ replicate 50 (sample_row ''p3'' ''Cy'' 54000)"
       "requested_urls st' = [paginated_url ''https://trackmania.io/api/leaderboard/map/ABC'' 0,
           paginated_url ''https://trackmania.io/api/leaderboard/map/ABC'' 100,
           paginated_url ''https://trackmania.io/api/leaderboard/map/ABC'' 200]"
    by blast
  have "length (all_tops_for_map st') = 250" "length (requested_urls st') = 3"
    by (simp_all add: C(2,3))
  with C(1) A B show ?thesis by blast
qed

section \<open>Name-change events\<close>

lemma name_change_logged_iff:
  "name_change_logged pid nm changes \<longleftrightarrow> (pid, nm) \<in> set (map change_key changes)"
  by (induction changes) (auto simp: name_change_logged_def change_key_def)

lemma changes_distinct_append:
  "changes_distinct s \<Longrightarrow> \<not> name_change_logged pid nm (player_name_changes s) \<Longrightarrow>
   changes_distinct (s\<lparr>player_name_changes := player_name_changes s @ [(pid, old, nm)]\<rparr>)"
  by (simp add: changes_distinct_def name_change_logged_iff) (simp add: change_key_def)

lemma changes_distinct_other [simp]:
  "changes_distinct (s\<lparr>newly_added_players := a\<rparr>) = changes_distinct s"
  "changes_distinct (s\<lparr>new_pbs := b\<rparr>) = changes_distinct s"
  "changes_distinct (s\<lparr>new_players_on_map := c\<rparr>) = changes_distinct s"
  "changes_distinct (s\<lparr>new_wrs := w\<rparr>) = changes_distinct s"
  by (simp_all add: changes_distinct_def)

lemma upsert_wr_holder_distinct:
  "changes_distinct (snd ds) \<Longrightarrow> changes_distinct (snd (upsert_wr_holder now all_tops ds))"
  by (auto simp: upsert_wr_holder_def Let_def changes_distinct_append split: list.splits option.splits)

lemma reconcile_wr_distinct:
  "changes_distinct (snd ds) \<Longrightarrow> changes_distinct (snd (reconcile_wr u dn now all_tops ds))"
  by (auto simp: reconcile_wr_def Let_def)

lemma upsert_player_distinct:
  "changes_distinct (snd ds) \<Longrightarrow> changes_distinct (snd (upsert_player now pid nm c ds))"
  by (auto simp: upsert_player_def Let_def changes_distinct_append split: option.splits)

lemma upsert_record_distinct:
  "changes_distinct (snd ds) \<Longrightarrow> changes_distinct (snd (upsert_record u dn now rank pid nm e ds))"
  by (auto simp: upsert_record_def Let_def split: option.splits)

lemma process_row_distinct:
  "changes_distinct (snd ds) \<Longrightarrow> changes_distinct (snd (process_row u dn now rank e ds))"
  by (simp add: process_row_def Let_def upsert_record_distinct upsert_player_distinct)

lemma process_rows_distinct:
  "changes_distinct (snd ds) \<Longrightarrow> changes_distinct (snd (process_rows u dn now rank es ds))"
  by (induction es arbitrary: rank ds) (simp_all add: process_row_distinct)

lemma reconcile_map_distinct:
  "changes_distinct (snd ds) \<Longrightarrow> changes_distinct (snd (reconcile_map u dn now all_tops reported ds))"
  by (simp add: reconcile_map_def Let_def process_rows_distinct reconcile_wr_distinct upsert_wr_holder_distinct)

lemma process_map_distinct:
  "process_map now entry responses ds = Some (urls, ds') \<Longrightarrow> changes_distinct (snd ds) \<Longrightarrow>
   changes_distinct (snd ds')"
  by (auto simp: process_map_def Let_def reconcile_map_distinct split: option.splits)

lemma process_entries_distinct:
  "process_entries now entries ds = Some ds' \<Longrightarrow> changes_distinct (snd ds) \<Longrightarrow>
   changes_distinct (snd ds')"
proof (induction entries arbitrary: ds)
  case Nil
  then show ?case by simp
next
  case (Cons a entries)
  obtain entry responses where a: "a = (entry, responses)" by (cases a)
  from Cons.prems(1) a obtain urls ds1 where
    pm: "process_map now entry responses ds = Some (urls, ds1)"
    and rest: "process_entries now entries ds1 = Some ds'"
    by (auto split: option.splits)
  from process_map_distinct [OF pm Cons.prems(2)] Cons.IH [OF rest] show ?case by simp
qed

text \<open>
  C3, amended: in one run, whatever the maps and their answers, the name-change events of
  the session log are pairwise different in player id and new name: for a player and a new
  name there is at most one event, also when the player is on the leaderboards of several
  maps.
\<close>

theorem name_change_dedup:
  "fetch_and_process_data now map_url_entries d = Some (Finished d' s') \<Longrightarrow>
   distinct (map change_key (player_name_changes s'))"
proof -
  assume run: "fetch_and_process_data now map_url_entries d = Some (Finished d' s')"
  then obtain ds where pe: "process_entries now map_url_entries (reset_flags d, empty_session) = Some ds"
    and s': "s' = snd ds"
    by (auto simp: fetch_and_process_data_def split: if_splits option.splits)
  have "changes_distinct (snd (reset_flags d, empty_session))"
    by (simp add: changes_distinct_def empty_session_def)
  from process_entries_distinct [OF pe this] show ?thesis by (simp add: s' changes_distinct_def)
qed

lemma two_maps_two_names:
  "map_option (\<lambda>r. case r of ConfigError \<Rightarrow> [] | Finished d s \<Rightarrow> player_name_changes s)
     (fetch_and_process_data ''2025-05-02T12:00:00''
        [(sample_entry, [Response (Some 1) (Some [sample_row ''p1'' ''Annie'' 52000])]),
         (second_entry, [Response (Some 1) (Some [sample_row ''p1'' ''Anna'' 61000])])]
        db_with_wr)
   = Some [(''p1'', ''Ann'', ''Annie''), (''p1'', ''Annie'', ''Anna'')]"
  by code_simp

lemma two_maps_two_names_run:
  "\<exists>d' s'. fetch_and_process_data ''2025-05-02T12:00:00''
        [(sample_entry, [Response (Some 1) (Some [sample_row ''p1'' ''Annie'' 52000])]),
         (second_entry, [Response (Some 1) (Some [sample_row ''p1'' ''Anna'' 61000])])]
        db_with_wr = Some (Finished d' s')
     \<and> player_name_changes s' = [(''p1'', ''Ann'', ''Annie''), (''p1'', ''Annie'', ''Anna'')]"
proof -
  from two_maps_two_names obtain r where
    r: "fetch_and_process_data ''2025-05-02T12:00:00''
        [(sample_entry, [Response (Some 1) (Some [sample_row ''p1'' ''Annie'' 52000])]),
         (second_entry, [Response (Some 1) (Some [sample_row ''p1'' ''Anna'' 61000])])]
        db_with_wr = Some r"
    and l: "(case r of ConfigError \<Rightarrow> [] | Finished d s \<Rightarrow> player_name_changes s)
        = [(''p1'', ''Ann'', ''Annie''), (''p1'', ''Annie'', ''Anna'')]"
    by blast
  from l show ?thesis unfolding r by (cases r) simp_all
qed

text \<open>
  C3, as the claim states it, fails: in one run, a player stored as Ann whom the first
  map reports as Annie and the second as Anna gets two name-change events.
\<close>

theorem name_change_dedup_counterexample:
  "\<exists>d' s'. fetch_and_process_data ''2025-05-02T12:00:00''
        [(sample_entry, [Response (Some 1) (Some [sample_row ''p1'' ''Annie'' 52000])]),
         (second_entry, [Response (Some 1) (Some [sample_row ''p1'' ''Anna'' 61000])])]
        db_with_wr = Some (Finished d' s')
     \<and> player_name_changes s' = [(''p1'', ''Ann'', ''Annie''), (''p1'', ''Annie'', ''Anna'')]
     \<and> length (filter (\<lambda>change. fst change = ''p1'') (player_name_changes s')) = 2"
  using two_maps_two_names_run by auto

theorem name_change_dedup_witness:
  "\<exists>d' s'. fetch_and_process_data ''2025-05-02T12:00:00''
        [(sample_entry, [Response (Some 1) (Some [sample_row ''p1'' ''Annie'' 52000])]),
         (second_entry, [Response (Some 1) (Some [sample_row ''p1'' ''Anna'' 61000])])]
        db_with_wr = Some (Finished d' s')
     \<and> distinct (map change_key (player_name_changes s'))"
  using two_maps_two_names_run name_change_dedup by blast

section \<open>Page loop: the answers decide what is fetched\<close>

lemma fetch_pages_failed:
  "fetch_pages base u entry now (RequestException # rs) st
     = Some (st\<lparr>requested_urls := requested_urls st @ [paginated_url base (current_offset st)]\<rparr>)"
  "fetch_pages base u entry now (JSONDecodeError # rs) st
     = Some (st\<lparr>requested_urls := requested_urls st @ [paginated_url base (current_offset st)]\<rparr>)"
  by (simp_all add: Let_def)

lemma same_fetch_stops:
  "same_fetch st st2 \<Longrightarrow> stops_after_page st reported rows = stops_after_page st2 reported rows"
  by (simp add: same_fetch_def stops_after_page_def count_in_force_def)

lemma fetch_pages_same:
  "fetch_pages base u entry now rs st = Some st' \<Longrightarrow> same_fetch st st2 \<Longrightarrow>
   \<exists>st2'. fetch_pages base u entry now2 rs st2 = Some st2' \<and> same_fetch st' st2'"
proof (induction rs arbitrary: st st2)
  case Nil
  then show ?case by simp
next
  case (Cons resp rs)
  show ?case
  proof (cases resp)
    case RequestException
    with Cons.prems show ?thesis by (auto simp: fetch_pages_failed same_fetch_def simp del: fetch_pages.simps)
  next
    case JSONDecodeError
    with Cons.prems show ?thesis by (auto simp: fetch_pages_failed same_fetch_def simp del: fetch_pages.simps)
  next
    case (Response reported page_tops)
    note ss = same_fetch_stops [OF Cons.prems(2), of reported "get_or page_tops []"]
    show ?thesis
    proof (cases "get_or page_tops [] \<noteq> [] \<and> \<not> stops_after_page st reported (get_or page_tops [])")
      case True
      with Cons.prems(1) Response have 1: "fetch_pages base u entry now rs
        ((if \<not> first_fetch_done st
                 then st\<lparr>requested_urls := requested_urls st @ [paginated_url base (current_offset st)],
                        map_total_playercount_api := get_or reported 0, first_fetch_done := True,
                        fetch_db := upsert_map u entry now (get_or reported 0) (fetch_db st)\<rparr>
                 else st\<lparr>requested_urls := requested_urls st @ [paginated_url base (current_offset st)]\<rparr>)
          \<lparr>all_tops_for_map := all_tops_for_map st @ get_or page_tops [],
                     current_offset := current_offset st + RECORDS_PER_PAGE\<rparr>) = Some st'"
        by (simp add: fetch_pages_step Let_def del: fetch_pages.simps)
      have 2: "same_fetch ((if \<not> first_fetch_done st
                 then st\<lparr>requested_urls := requested_urls st @ [paginated_url base (current_offset st)],
                        map_total_playercount_api := get_or reported 0, first_fetch_done := True,
                        fetch_db := upsert_map u entry now (get_or reported 0) (fetch_db st)\<rparr>
                 else st\<lparr>requested_urls := requested_urls st @ [paginated_url base (current_offset st)]\<rparr>)
          \<lparr>all_tops_for_map := all_tops_for_map st @ get_or page_tops [],
                     current_offset := current_offset st + RECORDS_PER_PAGE\<rparr>)
          ((if \<not> first_fetch_done st2
                 then st2\<lparr>requested_urls := requested_urls st2 @ [paginated_url base (current_offset st2)],
                        map_total_playercount_api := get_or reported 0, first_fetch_done := True,
                        fetch_db := upsert_map u entry now2 (get_or reported 0) (fetch_db st2)\<rparr>
                 else st2\<lparr>requested_urls := requested_urls st2 @ [paginated_url base (current_offset st2)]\<rparr>)
          \<lparr>all_tops_for_map := all_tops_for_map st2 @ get_or page_tops [],
                     current_offset := current_offset st2 + RECORDS_PER_PAGE\<rparr>)"
        using Cons.prems(2) by (simp add: same_fetch_def)
      from Cons.IH [OF 1 2] True ss Response show ?thesis
        by (simp add: fetch_pages_step Let_def del: fetch_pages.simps)
    next
      case False
      with Cons.prems Response ss show ?thesis
        by (auto simp: fetch_pages_step Let_def same_fetch_def simp del: fetch_pages.simps split: if_splits)
    qed
  qed
qed

lemma fetch_pages_db_shape:
  "fetch_pages base u entry now rs st = Some st' \<Longrightarrow>
     fetch_db st' = (if first_fetch_done st then fetch_db st
                     else if first_fetch_done st'
                     then upsert_map u entry now (map_total_playercount_api st') (fetch_db st)
                     else fetch_db st)
     \<and> (first_fetch_done st \<longrightarrow>
           first_fetch_done st' \<and> map_total_playercount_api st' = map_total_playercount_api st)
     \<and> (\<not> first_fetch_done st' \<longrightarrow>
           all_tops_for_map st' = all_tops_for_map st
           \<and> map_total_playercount_api st' = map_total_playercount_api st)"
proof (induction rs arbitrary: st)
  case Nil
  then show ?case by simp
next
  case (Cons resp rs)
  show ?case
  proof (cases resp)
    case RequestException
    with Cons.prems show ?thesis by (auto simp: fetch_pages_failed simp del: fetch_pages.simps)
  next
    case JSONDecodeError
    with Cons.prems show ?thesis by (auto simp: fetch_pages_failed simp del: fetch_pages.simps)
  next
    case (Response reported page_tops)
    show ?thesis
    proof (cases "get_or page_tops [] \<noteq> [] \<and> \<not> stops_after_page st reported (get_or page_tops [])")
      case True
      with Cons.prems Response have 1: "fetch_pages base u entry now rs
        ((if \<not> first_fetch_done st
                 then st\<lparr>requested_urls := requested_urls st @ [paginated_url base (current_offset st)],
                        map_total_playercount_api := get_or reported 0, first_fetch_done := True,
                        fetch_db := upsert_map u entry now (get_or reported 0) (fetch_db st)\<rparr>
                 else st\<lparr>requested_urls := requested_urls st @ [paginated_url base (current_offset st)]\<rparr>)
          \<lparr>all_tops_for_map := all_tops_for_map st @ get_or page_tops [],
                     current_offset := current_offset st + RECORDS_PER_PAGE\<rparr>) = Some st'"
        by (simp add: fetch_pages_step Let_def del: fetch_pages.simps)
      from Cons.IH [OF 1] show ?thesis by (auto split: if_splits)
    next
      case False
      with Cons.prems Response show ?thesis
        by (auto simp: fetch_pages_step Let_def simp del: fetch_pages.simps split: if_splits)
    qed
  qed
qed

section \<open>Row loop: what a run leaves behind\<close>

lemma is_pb_same_rank: "is_pb t t' rank pos \<Longrightarrow> \<not> is_pb t t' rank rank \<Longrightarrow> rank < pos"
  by (auto simp: is_pb_def split: if_splits)

lemma is_pb_settled: "\<not> is_pb t t rank rank"
  by (auto simp: is_pb_def)

lemma not_pb_same_rank: "\<not> is_pb t t' rank pos \<Longrightarrow> \<not> is_pb t t' rank rank"
  by (auto simp: is_pb_def split: if_splits)

text \<open>A row, once processed, is settled.\<close>

lemma process_row_settles:
  "row_settled u rank e (fst (process_row u dn now rank e ds))"
  by (auto simp: row_settled_def process_row_def upsert_record_def upsert_player_def Let_def
        is_pb_settled not_pb_same_rank split: option.splits)

text \<open>Processing a row leaves the rows of other players alone.\<close>

lemma process_row_frame:
  assumes "truthy_str (player_id e) \<Longrightarrow> player_id e \<noteq> Some pid"
  shows "players_tbl (fst (process_row u dn now rank e ds)) pid = players_tbl (fst ds) pid"
    and "records_tbl (fst (process_row u dn now rank e ds)) (u', pid) = records_tbl (fst ds) (u', pid)"
  using assms
  by (cases "player_id e";
      auto simp: process_row_def upsert_record_def upsert_player_def Let_def split: option.splits)+

lemma process_row_keeps_settled:
  assumes "row_settled u rank' e' (fst ds)"
      and "truthy_str (player_id e) \<Longrightarrow> truthy_str (player_id e') \<Longrightarrow> player_id e \<noteq> player_id e'"
  shows "row_settled u rank' e' (fst (process_row u dn now rank e ds))"
proof (cases "truthy_str (player_id e')")
  case True
  then obtain pid where pid: "player_id e' = Some pid" by (cases "player_id e'") auto
  have ne: "truthy_str (player_id e) \<Longrightarrow> player_id e \<noteq> Some pid" using assms(2) True pid by auto
  show ?thesis using assms(1) True pid
    by (simp add: row_settled_def process_row_frame [OF ne])
next
  case False
  then show ?thesis by (simp add: row_settled_def)
qed

lemma process_rows_keeps_settled:
  "row_settled u rank' e' (fst ds) \<Longrightarrow>
   (truthy_str (player_id e') \<Longrightarrow> the (player_id e') \<notin> set (fetched_player_ids es)) \<Longrightarrow>
   row_settled u rank' e' (fst (process_rows u dn now rank es ds))"
proof (induction es arbitrary: rank ds)
  case Nil
  then show ?case by simp
next
  case (Cons e es)
  have 1: "row_settled u rank' e' (fst (process_row u dn now rank e ds))"
  proof (rule process_row_keeps_settled [OF Cons.prems(1)])
    assume t: "truthy_str (player_id e)" "truthy_str (player_id e')"
    then have "the (player_id e) \<in> set (fetched_player_ids (e # es))"
      by (simp add: fetched_player_ids_def)
    with Cons.prems(2) [OF t(2)] show "player_id e \<noteq> player_id e'" by auto
  qed
  have 2: "truthy_str (player_id e') \<Longrightarrow> the (player_id e') \<notin> set (fetched_player_ids es)"
    using Cons.prems(2) by (auto simp: fetched_player_ids_def)
  show ?case using Cons.IH [OF 1 2] by simp
qed

lemma process_rows_settles:
  "distinct (fetched_player_ids es) \<Longrightarrow>
   rows_settled u rank es (fst (process_rows u dn now rank es ds))"
proof (induction es arbitrary: rank ds)
  case Nil
  then show ?case by simp
next
  case (Cons e es)
  have d: "distinct (fetched_player_ids es)"
    using Cons.prems by (auto simp: fetched_player_ids_def split: if_splits)
  have notin: "truthy_str (player_id e) \<Longrightarrow> the (player_id e) \<notin> set (fetched_player_ids es)"
    using Cons.prems by (auto simp: fetched_player_ids_def)
  have "row_settled u rank e (fst (process_rows u dn now (Suc rank) es (process_row u dn now rank e ds)))"
    by (rule process_rows_keeps_settled [OF process_row_settles notin])
  then show ?case using Cons.IH [OF d] by simp
qed

section \<open>Row loop: a run over a settled store\<close>

lemma records_touched_refl: "records_touched d d"
  by (simp add: records_touched_def)

lemma records_touched_trans:
  "records_touched d d' \<Longrightarrow> records_touched d' d'' \<Longrightarrow> records_touched d d''"
  by (simp add: records_touched_def)

lemma forgotten_fields:
  assumes "map_option (\<lambda>r. r\<lparr>script_updated_at := []\<rparr>) x = map_option (\<lambda>r. r\<lparr>script_updated_at := []\<rparr>) y"
  shows "map_option position x = map_option position y"
    and "map_option time_ms x = map_option time_ms y"
proof -
  have "map_option (position \<circ> (\<lambda>r. r\<lparr>script_updated_at := []\<rparr>)) x
      = map_option (position \<circ> (\<lambda>r. r\<lparr>script_updated_at := []\<rparr>)) y"
    using arg_cong [OF assms, of "map_option position"] by (simp add: option.map_comp)
  then show "map_option position x = map_option position y" by (simp add: comp_def)
  have "map_option (time_ms \<circ> (\<lambda>r. r\<lparr>script_updated_at := []\<rparr>)) x
      = map_option (time_ms \<circ> (\<lambda>r. r\<lparr>script_updated_at := []\<rparr>)) y"
    using arg_cong [OF assms, of "map_option time_ms"] by (simp add: option.map_comp)
  then show "map_option time_ms x = map_option time_ms y" by (simp add: comp_def)
qed

lemma row_settled_touched:
  assumes "row_settled u rank e d" "records_touched d d'"
  shows "row_settled u rank e d'"
proof (cases "truthy_str (player_id e)")
  case False
  then show ?thesis by (simp add: row_settled_def)
next
  case True
  from assms(2) have p: "players_tbl d' = players_tbl d"
    and r: "map_option (\<lambda>r. r\<lparr>script_updated_at := []\<rparr>) (records_tbl d' (u, the (player_id e)))
          = map_option (\<lambda>r. r\<lparr>script_updated_at := []\<rparr>) (records_tbl d (u, the (player_id e)))"
    by (simp_all add: records_touched_def)
  note f = forgotten_fields [OF r]
  from assms(1) True obtain r0 where r0: "records_tbl d (u, the (player_id e)) = Some r0"
    "position r0 = rank" "\<not> is_pb (entry_time e) (time_ms r0) rank rank"
    by (auto simp: row_settled_def split: option.splits)
  from f r0(1) obtain r1 where r1: "records_tbl d' (u, the (player_id e)) = Some r1"
    "position r1 = position r0" "time_ms r1 = time_ms r0"
    by (cases "records_tbl d' (u, the (player_id e))") auto
  show ?thesis using assms(1) True p r0 r1 by (simp add: row_settled_def)
qed

lemma rows_settled_touched:
  "rows_settled u rank es d \<Longrightarrow> records_touched d d' \<Longrightarrow> rows_settled u rank es d'"
  by (induction es arbitrary: rank) (auto intro: row_settled_touched)

lemma process_row_settled:
  assumes "row_settled u rank e d"
  shows "snd (process_row u dn now rank e (d, s)) = s"
    and "records_touched d (fst (process_row u dn now rank e (d, s)))"
  using assms
  by (auto simp: row_settled_def process_row_def upsert_record_def upsert_player_def Let_def
        records_touched_def name_change_logged_def split: option.splits if_splits)

lemma process_rows_settled:
  "rows_settled u rank es d \<Longrightarrow>
   snd (process_rows u dn now rank es (d, s)) = s
   \<and> records_touched d (fst (process_rows u dn now rank es (d, s)))"
proof (induction es arbitrary: rank d)
  case Nil
  then show ?case by (simp add: records_touched_refl)
next
  case (Cons e es)
  define d1 where "d1 = fst (process_row u dn now rank e (d, s))"
  have h: "row_settled u rank e d" "rows_settled u (Suc rank) es d" using Cons.prems by simp_all
  have pr: "process_row u dn now rank e (d, s) = (d1, s)"
    using process_row_settled(1) [OF h(1), of dn now s] by (simp add: d1_def prod_eq_iff)
  have t1: "records_touched d d1" using process_row_settled(2) [OF h(1), of dn now s] by (simp add: d1_def)
  from Cons.IH [OF rows_settled_touched [OF h(2) t1]] t1 show ?case
    by (auto simp: pr intro: records_touched_trans)
qed

section \<open>World record and map row of a settled store\<close>

lemma reconcile_wr_settles:
  "(all_tops \<noteq> [] \<Longrightarrow> maps_tbl (fst ds) u \<noteq> None) \<Longrightarrow>
   wr_settled u all_tops (fst (reconcile_wr u dn now all_tops ds))"
  by (cases all_tops; cases "maps_tbl (fst ds) u")
     (auto simp: wr_settled_def wr_matches_def reconcile_wr_def Let_def stored_wr_def wr_snapshot_def
        update_map_def split: option.splits)

lemma reconcile_wr_settled:
  "wr_settled u all_tops (fst ds) \<Longrightarrow> reconcile_wr u dn now all_tops ds = ds"
  by (cases all_tops; cases "maps_tbl (fst ds) u")
     (auto simp: wr_settled_def wr_matches_def reconcile_wr_def Let_def stored_wr_def wr_snapshot_def
        split: option.splits if_splits)

lemma reconcile_wr_map_settled:
  "map_settled u entry n (fst ds) \<Longrightarrow> map_settled u entry n (fst (reconcile_wr u dn now all_tops ds))"
  by (auto simp: map_settled_def reconcile_wr_def Let_def update_map_def split: option.splits)

lemma reconcile_wr_tables [simp]:
  "players_tbl (fst (reconcile_wr u dn now all_tops ds)) = players_tbl (fst ds)"
  "records_tbl (fst (reconcile_wr u dn now all_tops ds)) = records_tbl (fst ds)"
  by (auto simp: reconcile_wr_def Let_def update_map_def split: option.splits)

lemma upsert_wr_holder_settled:
  assumes "rows_settled u 1 all_tops d"
      and "all_tops \<noteq> [] \<Longrightarrow> truthy_str (player_id (hd all_tops)) \<Longrightarrow> player_name (hd all_tops) \<noteq> None"
  shows "upsert_wr_holder now all_tops (d, s) = (d, s)"
proof (cases all_tops)
  case Nil
  then show ?thesis by (simp add: upsert_wr_holder_def)
next
  case (Cons e es)
  show ?thesis
  proof (cases "truthy_str (player_id e)")
    case False
    with Cons show ?thesis by (simp add: upsert_wr_holder_def)
  next
    case True
    with assms(2) Cons obtain nm where nm: "player_name e = Some nm" by auto
    from assms(1) Cons True obtain p where
      p: "players_tbl d (the (player_id e)) = Some p" "last_known_name p = nm"
         "country_name p = fst (get_actual_country_info (player_zone e))"
         "country_flag p = snd (get_actual_country_info (player_zone e))"
      by (auto simp: row_settled_def nm split: option.splits)
    have "(players_tbl d)(the (player_id e) \<mapsto> p) = players_tbl d"
      using p(1) by (rule map_upd_triv)
    moreover have "p\<lparr>country_name := fst (get_actual_country_info (player_zone e)),
             country_flag := snd (get_actual_country_info (player_zone e))\<rparr> = p"
      unfolding p(3,4) [symmetric] by simp
    ultimately show ?thesis using Cons True nm p(1,2)
      by (simp add: upsert_wr_holder_def Let_def)
  qed
qed

lemma reset_flags_tables [simp]:
  "players_tbl (reset_flags d) = players_tbl d"
  "wr_snapshot u (reset_flags d) = wr_snapshot u d"
  by (auto simp: reset_flags_def wr_snapshot_def split: option.splits)

lemma reset_flags_row_settled: "row_settled u rank e d \<Longrightarrow> row_settled u rank e (reset_flags d)"
  by (auto simp: row_settled_def reset_flags_def split: option.splits)

lemma reset_flags_rows_settled: "rows_settled u rank es d \<Longrightarrow> rows_settled u rank es (reset_flags d)"
  by (induction es arbitrary: rank) (auto intro: reset_flags_row_settled)

lemma reset_flags_wr_settled: "wr_settled u all_tops d \<Longrightarrow> wr_settled u all_tops (reset_flags d)"
  by (simp add: wr_settled_def)

lemma reset_flags_map_settled: "map_settled u entry n d \<Longrightarrow> map_settled u entry n (reset_flags d)"
  by (auto simp: map_settled_def reset_flags_def split: option.splits)

text \<open>What a run of one map leaves behind, when a first page was decoded.\<close>

lemma reconcile_settles:
  assumes "distinct (fetched_player_ids all_tops)"
      and d1_def: "d1 = fst (reconcile_map u (entry_name entry) now all_tops reported
                       (upsert_map u entry now reported d, s))"
  shows "rows_settled u 1 all_tops d1" "wr_settled u all_tops d1"
        "map_settled u entry (int (length all_tops)) d1"
proof -
  define ds1 where "ds1 = (if int (length all_tops) \<noteq> reported
       then (update_map u (\<lambda>m. m\<lparr>last_playercount := int (length all_tops)\<rparr>)
               (upsert_map u entry now reported d), s)
       else (upsert_map u entry now reported d, s))"
  define ds2 where "ds2 = upsert_wr_holder now all_tops ds1"
  define ds3 where "ds3 = reconcile_wr u (entry_name entry) now all_tops ds2"
  have d1: "d1 = fst (process_rows u (entry_name entry) now 1 all_tops ds3)"
    by (simp add: d1_def reconcile_map_def Let_def ds1_def ds2_def ds3_def)
  show "rows_settled u 1 all_tops d1"
    unfolding d1 by (rule process_rows_settles [OF assms(1)])
  have m1: "map_settled u entry (int (length all_tops)) (fst ds1)"
    by (auto simp: ds1_def map_settled_def upsert_map_def update_map_def Let_def split: option.splits)
  then have m2: "map_settled u entry (int (length all_tops)) (fst ds2)"
    by (simp add: ds2_def map_settled_def)
  then have m3: "map_settled u entry (int (length all_tops)) (fst ds3)"
    unfolding ds3_def by (rule reconcile_wr_map_settled)
  then show "map_settled u entry (int (length all_tops)) d1"
    by (simp add: d1 map_settled_def)
  have "maps_tbl (fst ds2) u \<noteq> None" using m2 by (auto simp: map_settled_def split: option.splits)
  then have "wr_settled u all_tops (fst ds3)"
    unfolding ds3_def by (intro reconcile_wr_settles)
  then show "wr_settled u all_tops d1" by (simp add: d1 wr_settled_def)
qed

text \<open>A run of one map on a settled store, when a first page is decoded.\<close>

lemma reconcile_settled:
  assumes "rows_settled u 1 all_tops d" "wr_settled u all_tops d"
      and "map_settled u entry (int (length all_tops)) d"
      and "all_tops \<noteq> [] \<Longrightarrow> truthy_str (player_id (hd all_tops)) \<Longrightarrow> player_name (hd all_tops) \<noteq> None"
  shows "\<exists>d2. reconcile_map u (entry_name entry) now all_tops reported
                 (upsert_map u entry now reported d, s) = (d2, s)
              \<and> same_but_timestamps d d2"
proof -
  from assms(3) obtain m where m: "maps_tbl d u = Some m" "map_display_name m = entry_name entry"
    "api_url m = url_template entry" "fetch_order m = entry_fetch_order entry"
    "last_playercount m = int (length all_tops)"
    by (auto simp: map_settled_def split: option.splits)
  define db where "db = d\<lparr>maps_tbl := (maps_tbl d)(u \<mapsto> m\<lparr>last_fetched_at := now\<rparr>)\<rparr>"
  note ms = m(2-5) [symmetric]
  have ds1: "(if int (length all_tops) \<noteq> reported
       then (update_map u (\<lambda>m. m\<lparr>last_playercount := int (length all_tops)\<rparr>)
               (upsert_map u entry now reported d), s)
       else (upsert_map u entry now reported d, s)) = (db, s)"
    using m(1) by (auto simp: upsert_map_def update_map_def Let_def db_def ms)
  have t: "records_touched d db" by (simp add: records_touched_def db_def)
  have rs: "rows_settled u 1 all_tops db" by (rule rows_settled_touched [OF assms(1) t])
  have ws: "wr_settled u all_tops db"
    using assms(2) m(1) by (simp add: wr_settled_def wr_snapshot_def db_def)
  have ds2: "upsert_wr_holder now all_tops (db, s) = (db, s)"
    by (rule upsert_wr_holder_settled [OF rs assms(4)])
  have ds3: "reconcile_wr u (entry_name entry) now all_tops (db, s) = (db, s)"
    using reconcile_wr_settled [of u all_tops "(db, s)"] ws by simp
  define d2 where "d2 = fst (process_rows u (entry_name entry) now 1 all_tops (db, s))"
  from process_rows_settled [OF rs, of "entry_name entry" now s]
  have pr: "process_rows u (entry_name entry) now 1 all_tops (db, s) = (d2, s)"
    and t2: "records_touched db d2"
    by (simp_all add: d2_def prod_eq_iff)
  have rm: "reconcile_map u (entry_name entry) now all_tops reported
                 (upsert_map u entry now reported d, s) = (d2, s)"
    unfolding reconcile_map_def Let_def by (simp only: ds1 ds2 ds3 pr fst_conv snd_conv)
  have "maps_tbl d2 = maps_tbl db" using process_rows_maps [of u "entry_name entry" now 1 all_tops "(db, s)"]
    by (simp add: d2_def)
  then have "same_but_timestamps d d2"
    using t2 m(1) by (auto simp: same_but_timestamps_def records_touched_def db_def)
  with rm show ?thesis by blast
qed

section \<open>Reconciliation idempotence\<close>

lemma same_but_timestamps_refl: "same_but_timestamps d d"
  by (simp add: same_but_timestamps_def)

lemma reconcile_map_nothing_fetched:
  "reconcile_map u dn now [] 0 ds = reconcile_wr u dn now [] ds"
  by (simp add: reconcile_map_def upsert_wr_holder_def)

lemma same_fetch_initial: "same_fetch (initial_fetch_state d) (initial_fetch_state d')"
  by (simp add: same_fetch_def initial_fetch_state_def)

lemma fetch_pages_from_initial:
  assumes "fetch_pages base u entry now rs (initial_fetch_state d) = Some st"
  shows "fetch_db st = (if first_fetch_done st
                        then upsert_map u entry now (map_total_playercount_api st) d else d)"
    and "\<not> first_fetch_done st \<Longrightarrow> all_tops_for_map st = [] \<and> map_total_playercount_api st = 0"
  using fetch_pages_db_shape [OF assms] by (auto simp: initial_fetch_state_def)

lemma single_entry_run:
  assumes "extract_map_uid_from_url (url_template entry) = Some u"
      and "fetch_pages (clean_base_url (url_template entry)) u entry now rs
             (initial_fetch_state (reset_flags d)) = Some st"
  shows "fetch_and_process_data now [(entry, rs)] d =
           Some (Finished
             (fst (reconcile_map u (entry_name entry) now (all_tops_for_map st)
                     (map_total_playercount_api st) (fetch_db st, empty_session)))
             (snd (reconcile_map u (entry_name entry) now (all_tops_for_map st)
                     (map_total_playercount_api st) (fetch_db st, empty_session))))"
  using assms by (simp add: fetch_and_process_data_def process_map_def)

text \<open>
  C7, amended: take a run over one map whose fetched leaderboard lists no player id twice
  and whose rank-1 row, if it has a player id, has a player name. A second run over the
  same answers, which resets the flags and starts a fresh session log, records no personal
  best, no new player on the map, no world-record change and no name change, and leaves the
  store as the reset left it but for \<^verbatim>\<open>script_updated_at\<close> of the records and
  \<^verbatim>\<open>last_fetched_at\<close> of the map.
\<close>

theorem reconciliation_idempotent:
  assumes uid: "extract_map_uid_from_url (url_template entry) = Some u"
      and fetched: "fetch_pages (clean_base_url (url_template entry)) u entry now1 responses
                      (initial_fetch_state d0) = Some st"
      and once: "distinct (fetched_player_ids (all_tops_for_map st))"
      and named: "all_tops_for_map st \<noteq> [] \<Longrightarrow> truthy_str (player_id (hd (all_tops_for_map st)))
                    \<Longrightarrow> player_name (hd (all_tops_for_map st)) \<noteq> None"
  shows "\<exists>d1 s1 d2 s2.
           fetch_and_process_data now1 [(entry, responses)] d0 = Some (Finished d1 s1)
         \<and> fetch_and_process_data now2 [(entry, responses)] d1 = Some (Finished d2 s2)
         \<and> new_pbs s2 = [] \<and> new_players_on_map s2 = [] \<and> new_wrs s2 = []
         \<and> player_name_changes s2 = []
         \<and> same_but_timestamps (reset_flags d1) d2"
proof -
  let ?base = "clean_base_url (url_template entry)"
  let ?dn = "entry_name entry"
  let ?tops = "all_tops_for_map st"
  let ?pc = "map_total_playercount_api st"
  from fetch_pages_same [OF fetched same_fetch_initial, of now1 "reset_flags d0"]
  obtain sta where sta: "fetch_pages ?base u entry now1 responses (initial_fetch_state (reset_flags d0)) = Some sta"
    and sa: "same_fetch st sta" by blast
  define d1 where "d1 = fst (reconcile_map u ?dn now1 ?tops ?pc (fetch_db sta, empty_session))"
  define s1 where "s1 = snd (reconcile_map u ?dn now1 ?tops ?pc (fetch_db sta, empty_session))"
  have run1: "fetch_and_process_data now1 [(entry, responses)] d0 = Some (Finished d1 s1)"
    using single_entry_run [OF uid sta] sa by (simp add: d1_def s1_def same_fetch_def)
  from fetch_pages_same [OF fetched same_fetch_initial, of now2 "reset_flags d1"]
  obtain stb where stb: "fetch_pages ?base u entry now2 responses (initial_fetch_state (reset_flags d1)) = Some stb"
    and sb: "same_fetch st stb" by blast
  have run2: "fetch_and_process_data now2 [(entry, responses)] d1 =
      Some (Finished (fst (reconcile_map u ?dn now2 ?tops ?pc (fetch_db stb, empty_session)))
                     (snd (reconcile_map u ?dn now2 ?tops ?pc (fetch_db stb, empty_session))))"
    using single_entry_run [OF uid stb] sb by (simp add: same_fetch_def)
  have "\<exists>d2. reconcile_map u ?dn now2 ?tops ?pc (fetch_db stb, empty_session) = (d2, empty_session)
            \<and> same_but_timestamps (reset_flags d1) d2"
  proof (cases "first_fetch_done st")
    case True
    then have fa: "fetch_db sta = upsert_map u entry now1 ?pc (reset_flags d0)"
      and fb: "fetch_db stb = upsert_map u entry now2 ?pc (reset_flags d1)"
      using fetch_pages_from_initial(1) [OF sta] fetch_pages_from_initial(1) [OF stb] sa sb
      by (simp_all add: same_fetch_def)
    note settles = reconcile_settles [OF once, of d1 u entry now1 ?pc "reset_flags d0" empty_session,
        unfolded fa [symmetric], OF d1_def]
    show ?thesis
      unfolding fb
      by (rule reconcile_settled [OF reset_flags_rows_settled [OF settles(1)]
            reset_flags_wr_settled [OF settles(2)] reset_flags_map_settled [OF settles(3)] named])
  next
    case False
    then have ea: "?tops = []" "?pc = 0" and fa: "fetch_db sta = reset_flags d0"
      and fb: "fetch_db stb = reset_flags d1"
      using fetch_pages_from_initial [OF sta] fetch_pages_from_initial [OF stb] sa sb
      by (simp_all add: same_fetch_def)
    have "wr_settled u [] d1"
      unfolding d1_def ea reconcile_map_nothing_fetched by (rule reconcile_wr_settles) simp
    then have "wr_settled u [] (fst (reset_flags d1, empty_session))"
      by (simp add: reset_flags_wr_settled)
    from reconcile_wr_settled [OF this]
    have "reconcile_map u ?dn now2 ?tops ?pc (fetch_db stb, empty_session) = (reset_flags d1, empty_session)"
      unfolding ea fb reconcile_map_nothing_fetched .
    then show ?thesis using same_but_timestamps_refl by blast
  qed
  then obtain d2 where "reconcile_map u ?dn now2 ?tops ?pc (fetch_db stb, empty_session) = (d2, empty_session)"
    "same_but_timestamps (reset_flags d1) d2" by blast
  with run1 run2 show ?thesis by (auto simp: empty_session_def)
qed

section \<open>Reconciliation idempotence: instances\<close>

lemma duplicate_rows_twice:
  "map_option (\<lambda>r. case r of ConfigError \<Rightarrow> [] | Finished d s \<Rightarrow> new_pbs s)
     (case fetch_and_process_data ''2025-05-02T12:00:00''
             [(sample_entry,
               [Response (Some 2)
                  (Some [sample_row ''p1'' ''Ann'' 50000, sample_row ''p1'' ''Ann'' 60000])])]
             empty_db of
        Some (Finished d1 s1) \<Rightarrow>
          fetch_and_process_data ''2025-05-03T12:00:00''
            [(sample_entry,
              [Response (Some 2)
                 (Some [sample_row ''p1'' ''Ann'' 50000, sample_row ''p1'' ''Ann'' 60000])])]
            d1
      | _ \<Rightarrow> None)
   = Some [(''Ann'', ''Alpha'', Some 50000, Some 50000)]"
  by code_simp

text \<open>
  C7, as the claim states it, fails: a leaderboard that lists one player twice, at rank 1
  with the better time and at rank 2 with a worse one, leaves the player's record at
  position 2, and the second run over the same leaderboard reports a personal best.
\<close>

theorem reconciliation_idempotent_counterexample:
  "\<exists>d1 s1 d2 s2.
      fetch_and_process_data ''2025-05-02T12:00:00''
        [(sample_entry,
          [Response (Some 2)
             (Some [sample_row ''p1'' ''Ann'' 50000, sample_row ''p1'' ''Ann'' 60000])])]
        empty_db = Some (Finished d1 s1)
    \<and> fetch_and_process_data ''2025-05-03T12:00:00''
        [(sample_entry,
          [Response (Some 2)
             (Some [sample_row ''p1'' ''Ann'' 50000, sample_row ''p1'' ''Ann'' 60000])])]
        d1 = Some (Finished d2 s2)
    \<and> new_pbs s2 = [(''Ann'', ''Alpha'', Some 50000, Some 50000)]
    \<and> new_pbs s2 \<noteq> []"
proof -
  let ?run1 = "fetch_and_process_data ''2025-05-02T12:00:00''
        [(sample_entry,
          [Response (Some 2)
             (Some [sample_row ''p1'' ''Ann'' 50000, sample_row ''p1'' ''Ann'' 60000])])]
        empty_db"
  from duplicate_rows_twice obtain d1 s1 where r1: "?run1 = Some (Finished d1 s1)"
    by (cases ?run1) (auto split: run_result.splits)
  let ?run2 = "fetch_and_process_data ''2025-05-03T12:00:00''
        [(sample_entry,
          [Response (Some 2)
             (Some [sample_row ''p1'' ''Ann'' 50000, sample_row ''p1'' ''Ann'' 60000])])]
        d1"
  from duplicate_rows_twice r1 obtain d2 s2 where r2: "?run2 = Some (Finished d2 s2)"
    and pb: "new_pbs s2 = [(''Ann'', ''Alpha'', Some 50000, Some 50000)]"
    by (cases ?run2) (auto split: run_result.splits)
  from r1 r2 pb show ?thesis by auto
qed

theorem reconciliation_idempotent_witness:
  "\<exists>d1 s1 d2 s2.
      fetch_and_process_data ''2025-05-02T12:00:00''
        [(sample_entry,
          [Response (Some 2)
             (Some [sample_row ''p1'' ''Ann'' 50000, sample_row ''p2'' ''Bob'' 60000])])]
        db_with_wr = Some (Finished d1 s1)
    \<and> fetch_and_process_data ''2025-05-03T12:00:00''
        [(sample_entry,
          [Response (Some 2)
             (Some [sample_row ''p1'' ''Ann'' 50000, sample_row ''p2'' ''Bob'' 60000])])]
        d1 = Some (Finished d2 s2)
    \<and> new_pbs s2 = [] \<and> new_players_on_map s2 = [] \<and> new_wrs s2 = []
    \<and> player_name_changes s2 = []
    \<and> same_but_timestamps (reset_flags d1) d2"
proof -
  have fetched: "fetch_pages (clean_base_url (url_template sample_entry)) ''ABC'' sample_entry
       ''2025-05-02T12:00:00''
       [Response (Some 2) (Some [sample_row ''p1'' ''Ann'' 50000, sample_row ''p2'' ''Bob'' 60000])]
       (initial_fetch_state db_with_wr)
     = Some \<lparr>all_tops_for_map = [sample_row ''p1'' ''Ann'' 50000, sample_row ''p2'' ''Bob'' 60000],
              current_offset = 0, map_total_playercount_api = 2, first_fetch_done = True,
              requested_urls = [paginated_url (clean_base_url (url_template sample_entry)) 0],
              fetch_db = upsert_map ''ABC'' sample_entry ''2025-05-02T12:00:00'' 2 db_with_wr\<rparr>"
    by (simp add: initial_fetch_state_def Let_def RECORDS_PER_PAGE_def)
  show ?thesis
    by (rule reconciliation_idempotent [OF sample_uid fetched])
       (simp_all add: fetched_player_ids_def sample_row_def)
qed

section \<open>Personal best\<close>

lemma process_rows_append:
  "process_rows u dn now rank (xs @ ys) ds
     = process_rows u dn now (rank + length xs) ys (process_rows u dn now rank xs ds)"
  by (induction xs arbitrary: rank ds) simp_all

text \<open>
  What the row loop writes to the records and to the list of personal bests depends on
  these two alone; the blocks of a run before the row loop leave both as they were.
\<close>

lemma upsert_record_depends:
  assumes "records_tbl (fst a) = records_tbl (fst b)" and "new_pbs (snd a) = new_pbs (snd b)"
  shows "records_tbl (fst (upsert_record u dn now rank pid nm e a))
           = records_tbl (fst (upsert_record u dn now rank pid nm e b))"
    and "new_pbs (snd (upsert_record u dn now rank pid nm e a))
           = new_pbs (snd (upsert_record u dn now rank pid nm e b))"
  using assms by (auto simp: upsert_record_def Let_def split: option.splits)

lemma process_row_depends:
  assumes "records_tbl (fst a) = records_tbl (fst b)" and "new_pbs (snd a) = new_pbs (snd b)"
  shows "records_tbl (fst (process_row u dn now rank e a))
           = records_tbl (fst (process_row u dn now rank e b))"
    and "new_pbs (snd (process_row u dn now rank e a))
           = new_pbs (snd (process_row u dn now rank e b))"
  using assms
  by (auto simp: process_row_def Let_def intro!: upsert_record_depends)

lemma process_rows_depends:
  "records_tbl (fst a) = records_tbl (fst b) \<Longrightarrow> new_pbs (snd a) = new_pbs (snd b) \<Longrightarrow>
   records_tbl (fst (process_rows u dn now rank es a))
     = records_tbl (fst (process_rows u dn now rank es b))
   \<and> new_pbs (snd (process_rows u dn now rank es a))
     = new_pbs (snd (process_rows u dn now rank es b))"
proof (induction es arbitrary: rank a b)
  case Nil
  then show ?case by simp
next
  case (Cons e es)
  show ?case
    using Cons.IH [OF process_row_depends [OF Cons.prems]] by simp
qed

lemma upsert_wr_holder_new_pbs [simp]:
  "new_pbs (snd (upsert_wr_holder now all_tops ds)) = new_pbs (snd ds)"
  by (simp add: upsert_wr_holder_def Let_def split: list.splits option.splits)

lemma reconcile_wr_new_pbs [simp]:
  "new_pbs (snd (reconcile_wr u dn now all_tops ds)) = new_pbs (snd ds)"
  by (simp add: reconcile_wr_def Let_def)

lemma reconcile_map_rows:
  "records_tbl (fst (reconcile_map u dn now all_tops reported ds))
     = records_tbl (fst (process_rows u dn now 1 all_tops ds))"
  "new_pbs (snd (reconcile_map u dn now all_tops reported ds))
     = new_pbs (snd (process_rows u dn now 1 all_tops ds))"
proof -
  define ds3 where "ds3 = reconcile_wr u dn now all_tops (upsert_wr_holder now all_tops
     (if int (length all_tops) \<noteq> reported
      then (update_map u (\<lambda>m. m\<lparr>last_playercount := int (length all_tops)\<rparr>) (fst ds), snd ds)
      else ds))"
  have r: "reconcile_map u dn now all_tops reported ds = process_rows u dn now 1 all_tops ds3"
    by (simp add: reconcile_map_def ds3_def Let_def)
  have a: "records_tbl (fst ds3) = records_tbl (fst ds)"
    by (simp add: ds3_def update_map_def split: option.splits)
  have b: "new_pbs (snd ds3) = new_pbs (snd ds)"
    by (simp add: ds3_def)
  from process_rows_depends [OF a b]
  show "records_tbl (fst (reconcile_map u dn now all_tops reported ds))
     = records_tbl (fst (process_rows u dn now 1 all_tops ds))"
   and "new_pbs (snd (reconcile_map u dn now all_tops reported ds))
     = new_pbs (snd (process_rows u dn now 1 all_tops ds))"
    unfolding r by simp_all
qed

text \<open>One round of the row loop on a row whose record exists.\<close>

lemma process_row_existing:
  assumes "player_id e = Some pid" and "pid \<noteq> []"
      and "records_tbl (fst ds) (u, pid) = Some existing"
  shows "records_tbl (fst (process_row u dn now rank e ds)) (u, pid)
           = Some (if spec_is_pb (entry_time e) (time_ms existing) rank (position existing)
                   then existing\<lparr>time_ms := entry_time e, score := entry_score e, position := rank,
                          game_timestamp := entry_timestamp e, script_updated_at := now,
                          is_pb_since_last_fetch := True\<rparr>
                   else existing\<lparr>position := rank, script_updated_at := now\<rparr>)"
    and "new_pbs (snd (process_row u dn now rank e ds))
           = new_pbs (snd ds)
             @ (if spec_is_pb (entry_time e) (time_ms existing) rank (position existing)
                then [(get_or (player_name e) ''Unknown'', dn, entry_time e, time_ms existing)]
                else [])"
  using assms
  by (auto simp: process_row_def upsert_record_def Let_def is_pb_def spec_is_pb_def
        split: option.splits)

lemma process_row_appends:
  "\<exists>later. new_pbs (snd (process_row u dn now rank e ds)) = new_pbs (snd ds) @ later"
  by (auto simp: process_row_def upsert_record_def Let_def split: option.splits)

lemma process_rows_appends:
  "\<exists>later. new_pbs (snd (process_rows u dn now rank es ds)) = new_pbs (snd ds) @ later"
proof (induction es arbitrary: rank ds)
  case Nil
  then show ?case by simp
next
  case (Cons e es)
  obtain l1 where 1: "new_pbs (snd (process_row u dn now rank e ds)) = new_pbs (snd ds) @ l1"
    using process_row_appends by blast
  obtain l2 where "new_pbs (snd (process_rows u dn now (Suc rank) es (process_row u dn now rank e ds)))
      = new_pbs (snd (process_row u dn now rank e ds)) @ l2"
    using Cons.IH by blast
  with 1 show ?case by simp
qed

lemma process_rows_frame:
  "pid \<notin> set (fetched_player_ids es) \<Longrightarrow>
   records_tbl (fst (process_rows u dn now rank es ds)) (u', pid) = records_tbl (fst ds) (u', pid)"
proof (induction es arbitrary: rank ds)
  case Nil
  then show ?case by simp
next
  case (Cons e es)
  from Cons.prems have 1: "pid \<notin> set (fetched_player_ids es)"
    and 2: "truthy_str (player_id e) \<Longrightarrow> player_id e \<noteq> Some pid"
    by (auto simp: fetched_player_ids_def)
  show ?case using Cons.IH [OF 1] process_row_frame(2) [OF 2] by simp
qed

lemma stored_time_missing_first_run:
  "map_option (\<lambda>r. case r of ConfigError \<Rightarrow> None
                   | Finished d s \<Rightarrow>
                       map_option (\<lambda>row. (time_ms row, position row)) (records_tbl d (''ABC'', ''p7'')))
     (fetch_and_process_data ''2025-05-02T12:00:00''
        [(sample_entry,
          [Response (Some 1) (Some [(sample_row ''p7'' ''Gus'' 10000)\<lparr>entry_time := None\<rparr>])])]
        empty_db)
   = Some (Some (None, 1))"
  by code_simp

lemma stored_time_missing_second_run:
  "map_option (\<lambda>r. case r of ConfigError \<Rightarrow> [] | Finished d s \<Rightarrow> new_pbs s)
     (case fetch_and_process_data ''2025-05-02T12:00:00''
             [(sample_entry,
               [Response (Some 1) (Some [(sample_row ''p7'' ''Gus'' 10000)\<lparr>entry_time := None\<rparr>])])]
             empty_db of
        Some (Finished d1 s1) \<Rightarrow>
          fetch_and_process_data ''2025-05-03T12:00:00''
            [(sample_entry,
              [Response (Some 2)
                 (Some [sample_row ''p1'' ''Ann'' 9000, sample_row ''p7'' ''Gus'' 10000])])]
            d1
      | _ \<Rightarrow> None)
   = Some [(''Gus'', ''Alpha'', Some 10000, None)]"
  by code_simp

text \<open>
  C6, as the claim states it, fails on a record stored without a time. A first run over a
  leaderboard whose only row, of player \<^verbatim>\<open>p7\<close>, has no time stores the record with no time
  at position 1. In the next run the player is second with the time 10000: no stored time
  is there for it to be lower than or equal to, and the rank 2 is not lower than the stored
  position 1, yet the run reports a personal best.
\<close>

theorem pb_classification_counterexample:
  "\<exists>d1 s1 d2 s2 stored.
      fetch_and_process_data ''2025-05-02T12:00:00''
        [(sample_entry,
          [Response (Some 1) (Some [(sample_row ''p7'' ''Gus'' 10000)\<lparr>entry_time := None\<rparr>])])]
        empty_db = Some (Finished d1 s1)
    \<and> records_tbl d1 (''ABC'', ''p7'') = Some stored
    \<and> time_ms stored = None \<and> position stored = 1
    \<and> fetch_and_process_data ''2025-05-03T12:00:00''
        [(sample_entry,
          [Response (Some 2)
             (Some [sample_row ''p1'' ''Ann'' 9000, sample_row ''p7'' ''Gus'' 10000])])]
        d1 = Some (Finished d2 s2)
    \<and> new_pbs s2 = [(''Gus'', ''Alpha'', Some 10000, None)]"
proof -
  let ?run1 = "fetch_and_process_data ''2025-05-02T12:00:00''
        [(sample_entry,
          [Response (Some 1) (Some [(sample_row ''p7'' ''Gus'' 10000)\<lparr>entry_time := None\<rparr>])])]
        empty_db"
  from stored_time_missing_first_run obtain d1 s1 stored where r1: "?run1 = Some (Finished d1 s1)"
    and st: "records_tbl d1 (''ABC'', ''p7'') = Some stored" "time_ms stored = None" "position stored = 1"
    by (cases ?run1) (auto split: run_result.splits)
  let ?run2 = "fetch_and_process_data ''2025-05-03T12:00:00''
        [(sample_entry,
          [Response (Some 2)
             (Some [sample_row ''p1'' ''Ann'' 9000, sample_row ''p7'' ''Gus'' 10000])])]
        d1"
  from stored_time_missing_second_run r1 obtain d2 s2 where r2: "?run2 = Some (Finished d2 s2)"
    and pb: "new_pbs s2 = [(''Gus'', ''Alpha'', Some 10000, None)]"
    by (cases ?run2) (auto split: run_result.splits)
  from r1 st r2 pb show ?thesis by blast
qed

lemma equal_time_better_rank:
  "map_option (\<lambda>(urls, d', s').
       (new_pbs s', map_option is_pb_since_last_fetch (records_tbl d' (''ABC'', ''p7''))))
     (process_map ''2025-05-02T12:00:00'' sample_entry [Response (Some 3) (Some rows_third_place)]
        (db_rank5, empty_session))
   = Some ([(''Gus'', ''Alpha'', Some 10000, Some 10000)], Some True)"
  by code_simp

lemma equal_time_worse_rank:
  "map_option (\<lambda>(urls, d', s').
       (new_pbs s', map_option is_pb_since_last_fetch (records_tbl d' (''ABC'', ''p7''))))
     (process_map ''2025-05-02T12:00:00'' sample_entry [Response (Some 5) (Some rows_fifth_place)]
        (db_rank3, empty_session))
   = Some ([], Some False)"
  by code_simp

text \<open>
  C6, amended: the rank of a fetched row is its place in the fetched leaderboard, counted
  from 1, and the record compared with is the one the store holds for the map and the
  player when the row loop reaches the row. Such a row is a personal best (time, score,
  position and game timestamp overwritten, flag set, event appended) exactly when it has a
  time and the stored record has none, or its time is lower than the stored one, or the
  times are equal and its rank is lower than the stored position; otherwise only the
  position and the update time are written. So the row loop does, and so does the run of a
  map: its list of personal bests continues the one the loop has when it reaches the row
  with the event of this row, if any, and the record is left as classified unless a later
  row names the player again. A player not named by an earlier row has the record of the
  store the run started from. Equal times 10000 in the third place against the stored
  position 5 is a personal best; in the fifth place against the stored position 3 it is not.
\<close>

theorem pb_classification:
  assumes "extract_map_uid_from_url (url_template entry) = Some u"
      and "fetch_pages (clean_base_url (url_template entry)) u entry now responses
             (initial_fetch_state d) = Some st"
      and "all_tops_for_map st = pre @ e # post"
      and "player_id e = Some pid" and "pid \<noteq> []"
      and "records_tbl (fst (process_rows u (entry_name entry) now 1 pre (d, s))) (u, pid)
             = Some existing"
  shows "records_tbl (fst (process_rows u (entry_name entry) now 1 (pre @ [e]) (d, s))) (u, pid)
           = Some (if spec_is_pb (entry_time e) (time_ms existing) (Suc (length pre)) (position existing)
                   then existing\<lparr>time_ms := entry_time e, score := entry_score e,
                          position := Suc (length pre), game_timestamp := entry_timestamp e,
                          script_updated_at := now, is_pb_since_last_fetch := True\<rparr>
                   else existing\<lparr>position := Suc (length pre), script_updated_at := now\<rparr>)
         \<and> new_pbs (snd (process_rows u (entry_name entry) now 1 (pre @ [e]) (d, s)))
           = new_pbs (snd (process_rows u (entry_name entry) now 1 pre (d, s)))
             @ (if spec_is_pb (entry_time e) (time_ms existing) (Suc (length pre)) (position existing)
                then [(get_or (player_name e) ''Unknown'', entry_name entry, entry_time e,
                       time_ms existing)]
                else [])
         \<and> (\<exists>urls d' s' later.
               process_map now entry responses (d, s) = Some (urls, d', s')
               \<and> new_pbs s'
                 = new_pbs (snd (process_rows u (entry_name entry) now 1 pre (d, s)))
                   @ (if spec_is_pb (entry_time e) (time_ms existing) (Suc (length pre))
                           (position existing)
                      then [(get_or (player_name e) ''Unknown'', entry_name entry, entry_time e,
                             time_ms existing)]
                      else [])
                   @ later
               \<and> (pid \<notin> set (fetched_player_ids post) \<longrightarrow>
                    records_tbl d' (u, pid)
                      = Some (if spec_is_pb (entry_time e) (time_ms existing) (Suc (length pre))
                                   (position existing)
                              then existing\<lparr>time_ms := entry_time e, score := entry_score e,
                                     position := Suc (length pre),
                                     game_timestamp := entry_timestamp e,
                                     script_updated_at := now, is_pb_since_last_fetch := True\<rparr>
                              else existing\<lparr>position := Suc (length pre),
                                     script_updated_at := now\<rparr>)))
         \<and> (pid \<notin> set (fetched_player_ids pre) \<longrightarrow> records_tbl d (u, pid) = Some existing)
         \<and> map_option (\<lambda>(urls, d', s').
               (new_pbs s', map_option is_pb_since_last_fetch (records_tbl d' (''ABC'', ''p7''))))
             (process_map ''2025-05-02T12:00:00'' sample_entry
                [Response (Some 3) (Some rows_third_place)] (db_rank5, empty_session))
           = Some ([(''Gus'', ''Alpha'', Some 10000, Some 10000)], Some True)
         \<and> map_option (\<lambda>(urls, d', s').
               (new_pbs s', map_option is_pb_since_last_fetch (records_tbl d' (''ABC'', ''p7''))))
             (process_map ''2025-05-02T12:00:00'' sample_entry
                [Response (Some 5) (Some rows_fifth_place)] (db_rank3, empty_session))
           = Some ([], Some False)"
proof -
  let ?dn = "entry_name entry"
  let ?before = "process_rows u ?dn now 1 pre (d, s)"
  let ?after = "process_rows u ?dn now 1 (pre @ [e]) (d, s)"
  let ?pb = "spec_is_pb (entry_time e) (time_ms existing) (Suc (length pre)) (position existing)"
  let ?row = "if ?pb
              then existing\<lparr>time_ms := entry_time e, score := entry_score e,
                     position := Suc (length pre), game_timestamp := entry_timestamp e,
                     script_updated_at := now, is_pb_since_last_fetch := True\<rparr>
              else existing\<lparr>position := Suc (length pre), script_updated_at := now\<rparr>"
  let ?ev = "if ?pb then [(get_or (player_name e) ''Unknown'', ?dn, entry_time e, time_ms existing)]
             else []"
  have after: "?after = process_row u ?dn now (Suc (length pre)) e ?before"
    by (simp add: process_rows_append)
  have A: "records_tbl (fst ?after) (u, pid) = Some ?row"
    unfolding after by (rule process_row_existing(1) [OF assms(4,5,6)])
  have B: "new_pbs (snd ?after) = new_pbs (snd ?before) @ ?ev"
    unfolding after by (rule process_row_existing(2) [OF assms(4,5,6)])
  have whole: "process_rows u ?dn now 1 (pre @ e # post) (d, s)
                 = process_rows u ?dn now (Suc (Suc (length pre))) post ?after"
    using process_rows_append [of u ?dn now 1 "pre @ [e]" post "(d, s)"] by simp
  let ?run = "reconcile_map u ?dn now (all_tops_for_map st) (map_total_playercount_api st)
                (fetch_db st, s)"
  have pm: "process_map now entry responses (d, s) = Some (requested_urls st, ?run)"
    using assms(1,2) by (simp add: process_map_def)
  have keep: "records_tbl (fetch_db st) = records_tbl d"
    using fetch_pages_keeps [OF assms(2)] by (simp add: initial_fetch_state_def)
  from process_rows_depends [of "(fetch_db st, s)" "(d, s)" u ?dn now 1 "all_tops_for_map st"] keep
  have start: "records_tbl (fst (process_rows u ?dn now 1 (all_tops_for_map st) (fetch_db st, s)))
                 = records_tbl (fst (process_rows u ?dn now 1 (all_tops_for_map st) (d, s)))"
              "new_pbs (snd (process_rows u ?dn now 1 (all_tops_for_map st) (fetch_db st, s)))
                 = new_pbs (snd (process_rows u ?dn now 1 (all_tops_for_map st) (d, s)))"
    by simp_all
  have run_records: "records_tbl (fst ?run)
      = records_tbl (fst (process_rows u ?dn now (Suc (Suc (length pre))) post ?after))"
    by (simp only: reconcile_map_rows(1) start(1)) (simp only: assms(3) whole)
  have run_pbs: "new_pbs (snd ?run)
      = new_pbs (snd (process_rows u ?dn now (Suc (Suc (length pre))) post ?after))"
    by (simp only: reconcile_map_rows(2) start(2)) (simp only: assms(3) whole)
  obtain later where later: "new_pbs (snd ?run) = new_pbs (snd ?after) @ later"
    using process_rows_appends [of u ?dn now "Suc (Suc (length pre))" post ?after] run_pbs by auto
  have C: "new_pbs (snd ?run) = new_pbs (snd ?before) @ ?ev @ later"
    using later B by simp
  have D: "records_tbl (fst ?run) (u, pid) = Some ?row" if "pid \<notin> set (fetched_player_ids post)"
    using process_rows_frame [OF that, of u ?dn now "Suc (Suc (length pre))" ?after u] A run_records
    by simp
  have E: "records_tbl d (u, pid) = Some existing" if "pid \<notin> set (fetched_player_ids pre)"
    using process_rows_frame [OF that, of u ?dn now 1 "(d, s)" u] assms(6) by simp
  have run: "\<exists>urls d' s' later.
               process_map now entry responses (d, s) = Some (urls, d', s')
               \<and> new_pbs s' = new_pbs (snd ?before) @ ?ev @ later
               \<and> (pid \<notin> set (fetched_player_ids post) \<longrightarrow> records_tbl d' (u, pid) = Some ?row)"
    unfolding pm
    by (intro exI [of _ "requested_urls st"] exI [of _ "fst ?run"] exI [of _ "snd ?run"]
          exI [of _ later]) (simp add: C D)
  from A B run E equal_time_better_rank equal_time_worse_rank show ?thesis by blast
qed

lemma two_rows_before_third:
  "new_pbs (snd (process_rows ''ABC'' ''Alpha'' ''2025-05-02T12:00:00'' 1
      [sample_row ''p1'' ''Ann'' 9000, sample_row ''p2'' ''Bob'' 9500] (db_rank5, empty_session))) = []"
  by code_simp

theorem pb_classification_witness:
  "records_tbl (fst (process_rows ''ABC'' ''Alpha'' ''2025-05-02T12:00:00'' 1 rows_third_place
       (db_rank5, empty_session))) (''ABC'', ''p7'')
     = Some ((sample_record 10000 5)\<lparr>time_ms := Some 10000, score := Some 0, position := 3,
               game_timestamp := Some ''2025-05-01T10:00:00'',
               script_updated_at := ''2025-05-02T12:00:00'', is_pb_since_last_fetch := True\<rparr>)
   \<and> (\<exists>urls d' s' later.
         process_map ''2025-05-02T12:00:00'' sample_entry [Response (Some 3) (Some rows_third_place)]
           (db_rank5, empty_session) = Some (urls, d', s')
         \<and> new_pbs s' = (''Gus'', ''Alpha'', Some 10000, Some 10000) # later
         \<and> records_tbl d' (''ABC'', ''p7'')
             = Some ((sample_record 10000 5)\<lparr>time_ms := Some 10000, score := Some 0, position := 3,
                       game_timestamp := Some ''2025-05-01T10:00:00'',
                       script_updated_at := ''2025-05-02T12:00:00'',
                       is_pb_since_last_fetch := True\<rparr>))"
proof -
  let ?pre = "[sample_row ''p1'' ''Ann'' 9000, sample_row ''p2'' ''Bob'' 9500]"
  let ?e = "sample_row ''p7'' ''Gus'' 10000"
  have h2: "fetch_pages (clean_base_url (url_template sample_entry)) ''ABC'' sample_entry
             ''2025-05-02T12:00:00'' [Response (Some 3) (Some rows_third_place)]
             (initial_fetch_state db_rank5)
        = Some \<lparr>all_tops_for_map = rows_third_place, current_offset = 0,
                 map_total_playercount_api = 3, first_fetch_done = True,
                 requested_urls = [paginated_url (clean_base_url (url_template sample_entry)) 0],
                 fetch_db = upsert_map ''ABC'' sample_entry ''2025-05-02T12:00:00'' 3 db_rank5\<rparr>"
    by (simp add: initial_fetch_state_def Let_def RECORDS_PER_PAGE_def rows_third_place_def)
  have h3: "all_tops_for_map \<lparr>all_tops_for_map = rows_third_place, current_offset = 0,
                 map_total_playercount_api = 3, first_fetch_done = True,
                 requested_urls = [paginated_url (clean_base_url (url_template sample_entry)) 0],
                 fetch_db = upsert_map ''ABC'' sample_entry ''2025-05-02T12:00:00'' 3 db_rank5\<rparr>
              = ?pre @ ?e # []"
    by (simp add: rows_third_place_def)
  have h4: "player_id ?e = Some ''p7''" by (simp add: sample_row_def)
  have h5: "''p7'' \<noteq> []" by simp
  have "''p7'' \<notin> set (fetched_player_ids ?pre)"
    by (simp add: fetched_player_ids_def sample_row_def)
  from process_rows_frame [OF this]
  have h6: "records_tbl (fst (process_rows ''ABC'' (entry_name sample_entry) ''2025-05-02T12:00:00'' 1
                ?pre (db_rank5, empty_session))) (''ABC'', ''p7'') = Some (sample_record 10000 5)"
    by (simp add: db_rank5_def del: process_rows.simps)
  have nm: "entry_name sample_entry = ''Alpha''" by (simp add: sample_entry_def)
  have fields: "entry_time ?e = Some 10000" "entry_score ?e = Some 0"
    "entry_timestamp ?e = Some ''2025-05-01T10:00:00''" "get_or (player_name ?e) ''Unknown'' = ''Gus''"
    "time_ms (sample_record 10000 5) = Some 10000"
    by (simp_all add: sample_row_def sample_record_def)
  have rows: "?pre @ [?e] = rows_third_place" by (simp add: rows_third_place_def)
  have none: "''p7'' \<notin> set (fetched_player_ids [])" by (simp add: fetched_player_ids_def)
  note t = pb_classification [OF sample_uid h2 h3 h4 h5 h6]
  from t [THEN conjunct1]
  have A: "records_tbl (fst (process_rows ''ABC'' ''Alpha'' ''2025-05-02T12:00:00'' 1 rows_third_place
       (db_rank5, empty_session))) (''ABC'', ''p7'')
     = Some ((sample_record 10000 5)\<lparr>time_ms := Some 10000, score := Some 0, position := 3,
               game_timestamp := Some ''2025-05-01T10:00:00'',
               script_updated_at := ''2025-05-02T12:00:00'', is_pb_since_last_fetch := True\<rparr>)"
    unfolding rows nm fields by (simp add: spec_is_pb_def sample_record_def del: process_rows.simps)
  from t [THEN conjunct2, THEN conjunct2, THEN conjunct1]
  obtain urls d' s' later where
    run: "process_map ''2025-05-02T12:00:00'' sample_entry [Response (Some 3) (Some rows_third_place)]
           (db_rank5, empty_session) = Some (urls, d', s')"
    and ev: "new_pbs s' = new_pbs (snd (process_rows ''ABC'' ''Alpha'' ''2025-05-02T12:00:00'' 1
                ?pre (db_rank5, empty_session)))
              @ [(''Gus'', ''Alpha'', Some 10000, Some 10000)] @ later"
    and rec: "records_tbl d' (''ABC'', ''p7'')
             = Some ((sample_record 10000 5)\<lparr>time_ms := Some 10000, score := Some 0, position := 3,
                       game_timestamp := Some ''2025-05-01T10:00:00'',
                       script_updated_at := ''2025-05-02T12:00:00'',
                       is_pb_since_last_fetch := True\<rparr>)"
    unfolding nm fields using none by (auto simp: spec_is_pb_def sample_record_def simp del: process_rows.simps)
  from ev have "new_pbs s' = (''Gus'', ''Alpha'', Some 10000, Some 10000) # later"
    unfolding two_rows_before_third by simp
  with A run rec show ?thesis by blast
qed

end
